theory Spec2Isabelle
  imports Main "HOL-Library.Numeral_Type"
begin

section \<open>Exceptions as values\<close>

text \<open>
  The Python exceptions that the modelled functions raise. A function that can raise
  returns \<open>error + 'a\<close>, with \<open>Inl\<close> for the exception.
\<close>

datatype error =
  TypeError | ValueError | NotImplementedError | ZeroDivisionError | IndexError |
  AssertionError

type_synonym 'a result = "error + 'a"

definition rbind :: "'a result \<Rightarrow> ('a \<Rightarrow> 'b result) \<Rightarrow> 'b result" where
  "rbind m f = (case m of Inl e \<Rightarrow> Inl e | Inr x \<Rightarrow> f x)"

definition is_ok :: "'a result \<Rightarrow> bool" where
  "is_ok m = (case m of Inl e \<Rightarrow> False | Inr x \<Rightarrow> True)"

section \<open>The kernels handed to the decoder\<close>

text \<open>
  \<open>decode_calculate\<close> (src/galois/code/reed_solomon.py) receives the field arithmetic
  as arguments: \<open>ADD\<close>, \<open>SUBTRACT\<close>, \<open>MULTIPLY\<close>, \<open>RECIPROCAL\<close>, \<open>POWER\<close>, the
  composite kernels \<open>BERLEKAMP_MASSEY\<close>, \<open>POLY_ROOTS\<close>, \<open>POLY_EVAL\<close>, \<open>CONVOLVE\<close>
  and the constants \<open>CHARACTERISTIC\<close>, \<open>DEGREE\<close>, \<open>IRREDUCIBLE_POLY\<close>. Their bodies
  are not part of the sources, so they stay parameters: one record holds them. In the
  source every composite kernel is called with the arithmetic kernels and the three
  constants as further arguments; here they are the fields of the same record. Field
  elements are machine integers, as in the source. Addition, subtraction and
  multiplication are total; \<open>RECIPROCAL\<close>, \<open>POWER\<close> and the composite kernels may
  raise.
\<close>

record kernels =
  ADD :: "int \<Rightarrow> int \<Rightarrow> int"
  SUBTRACT :: "int \<Rightarrow> int \<Rightarrow> int"
  MULTIPLY :: "int \<Rightarrow> int \<Rightarrow> int"
  RECIPROCAL :: "int \<Rightarrow> int result"
  POWER :: "int \<Rightarrow> int \<Rightarrow> int result"
  BERLEKAMP_MASSEY :: "int list \<Rightarrow> int list result"
  POLY_ROOTS :: "int list \<Rightarrow> int list \<Rightarrow> int \<Rightarrow> (int \<times> int) list result"
  POLY_EVAL :: "int list \<Rightarrow> int \<Rightarrow> int result"
  CONVOLVE :: "int list \<Rightarrow> int list \<Rightarrow> int list result"
  CHARACTERISTIC :: int
  DEGREE :: int
  IRREDUCIBLE_POLY :: int

section \<open>Array indexing and slicing as Python has them\<close>

text \<open>An index into an array of \<open>len\<close> entries; a negative index counts from the end.\<close>

definition py_index :: "nat \<Rightarrow> int \<Rightarrow> nat option" where
  "py_index len i =
     (if 0 \<le> i \<and> i < int len then Some (nat i)
      else if - int len \<le> i \<and> i < 0 then Some (nat (i + int len))
      else None)"

text \<open>\<open>a[-v:]\<close> for \<open>v \<ge> 0\<close>: the last \<open>v\<close> entries, and the whole array for \<open>v = 0\<close>.\<close>

definition last_slice :: "nat \<Rightarrow> 'a list \<Rightarrow> 'a list" where
  "last_slice v xs = (if v = 0 then xs else drop (length xs - v) xs)"

definition all_zero :: "int list \<Rightarrow> bool" where
  "all_zero xs = list_all (\<lambda>x. x = 0) xs"

section \<open>decode\_calculate\<close>

text \<open>
  The derivative loop:
  \<^verbatim>\<open>for j in range(v): degree = v - j;
       sigma_prime[j] = MULTIPLY(degree % CHARACTERISTIC, sigma[j])\<close>
  The caller has \<open>v = sigma.size - 1\<close>, so every \<open>sigma[j]\<close> is in range.
\<close>

definition sigma_prime_of :: "kernels \<Rightarrow> nat \<Rightarrow> int list \<Rightarrow> int list" where
  "sigma_prime_of K v sigma =
     map (\<lambda>j. MULTIPLY K ((int v - int j) mod CHARACTERISTIC K) (sigma ! j)) [0..<v]"

text \<open>
  One pass of the Forney loop, for the root \<open>beta[j]\<close> with its power
  \<open>error_locations[j]\<close>; \<open>row\<close> is row \<open>i\<close> of \<open>dec_codeword\<close> (\<open>n + 1\<close> entries).
  The source is compiled without bounds checks; an index outside the row is modelled as
  \<open>IndexError\<close>.
\<close>

definition forney_step ::
  "kernels \<Rightarrow> nat \<Rightarrow> int list \<Rightarrow> int list \<Rightarrow> int \<times> int \<Rightarrow> int list \<Rightarrow> int list result" where
  "forney_step K n Z0 sigma_prime bl row =
     rbind (RECIPROCAL K (fst bl)) (\<lambda>beta_inv.
     rbind (POLY_EVAL K Z0 beta_inv) (\<lambda>Z0_i.
     rbind (POLY_EVAL K sigma_prime beta_inv) (\<lambda>sigma_prime_i.
     rbind (RECIPROCAL K sigma_prime_i) (\<lambda>r.
       let delta_i = MULTIPLY K (SUBTRACT K 0 Z0_i) r in
       (case py_index (length row) (int n - 1 - snd bl) of
          None \<Rightarrow> Inl IndexError
        | Some idx \<Rightarrow> Inr (row[idx := SUBTRACT K (row ! idx) delta_i]))))))"

text \<open>
  \<open>for j in range(v)\<close> over \<open>beta[j]\<close>, \<open>error_locations[j]\<close>: the loop is entered
  only with \<open>beta.size = v\<close>, so it visits every column of \<open>results\<close> in order.
\<close>

fun forney_loop ::
  "kernels \<Rightarrow> nat \<Rightarrow> int list \<Rightarrow> int list \<Rightarrow> (int \<times> int) list \<Rightarrow> int list \<Rightarrow> int list result" where
  "forney_loop K n Z0 sigma_prime [] row = Inr row"
| "forney_loop K n Z0 sigma_prime (bl # bls) row =
     rbind (forney_step K n Z0 sigma_prime bl row) (forney_loop K n Z0 sigma_prime bls)"

text \<open>
  The body of \<open>for i in range(N)\<close> for one codeword \<open>cw\<close> (row \<open>i\<close> of \<open>codeword\<close>)
  and its syndrome \<open>syn\<close>; the result is row \<open>i\<close> of \<open>dec_codeword\<close>, whose last entry
  is the number of corrected errors. \<open>results\<close> is the 2-by-R array of \<open>POLY_ROOTS\<close>, as
  the list of its columns. \<open>degree % CHARACTERISTIC\<close> raises for a zero modulus.
\<close>

definition decode_row ::
  "kernels \<Rightarrow> int \<Rightarrow> int \<Rightarrow> int list \<Rightarrow> int list \<Rightarrow> int list result" where
  "decode_row K t primitive_element cw syn =
     (let n = length cw; row = cw @ [0] in
      if all_zero syn then Inr row
      else
        rbind (BERLEKAMP_MASSEY K syn) (\<lambda>sigma.
        rbind (BERLEKAMP_MASSEY K (rev syn)) (\<lambda>sigma_rev.
          let v = int (length sigma) - 1 in
          if v > t then Inr (row[n := - 1])
          else
            let degrees = map int (rev [0..<length sigma_rev]) in
            rbind (POLY_ROOTS K degrees sigma_rev primitive_element) (\<lambda>results.
              if int (length results) \<noteq> v then Inr (row[n := - 1])
              else if v > 0 \<and> CHARACTERISTIC K = 0 then Inl ZeroDivisionError
              else
                let sigma_prime = sigma_prime_of K (nat v) sigma in
                rbind (CONVOLVE K (last_slice (nat v) sigma) (rev (take (nat v) syn))) (\<lambda>conv.
                  let Z0 = last_slice (nat v) conv in
                  rbind (forney_loop K n Z0 sigma_prime results row) (\<lambda>row'.
                    Inr (row'[n := v])))))))"

text \<open>
  \<open>for i in range(N)\<close> with \<open>N = codeword.shape[0]\<close>: a 2-D array is the list of its
  rows. An exception in one row ends the call. Reading a syndrome row that does not exist
  is modelled as \<open>IndexError\<close>.
\<close>

fun decode_calculate ::
  "kernels \<Rightarrow> int \<Rightarrow> int \<Rightarrow> int list list \<Rightarrow> int list list \<Rightarrow> int list list result" where
  "decode_calculate K t pe [] syndrome = Inr []"
| "decode_calculate K t pe (cw # cws) [] = Inl IndexError"
| "decode_calculate K t pe (cw # cws) (syn # syns) =
     rbind (decode_row K t pe cw syn) (\<lambda>row.
     rbind (decode_calculate K t pe cws syns) (\<lambda>rows. Inr (row # rows)))"

section \<open>Basic facts\<close>

lemma rbind_Inr [simp]: "rbind (Inr x) f = f x"
  by (simp add: rbind_def)

lemma rbind_Inl [simp]: "rbind (Inl e) f = Inl e"
  by (simp add: rbind_def)

lemma rbind_eq_Inr: "rbind m f = Inr y \<longleftrightarrow> (\<exists>x. m = Inr x \<and> f x = Inr y)"
  by (cases m) simp_all

section \<open>Uncorrectable codewords\<close>

text \<open>
  The condition under which a row ends with \<open>-1\<close>: the syndrome is not zero, both
  Berlekamp-Massey calls returned, and either \<open>v = sigma.size - 1\<close> exceeds \<open>t\<close> or
  the number of roots found for \<open>sigma_rev\<close> is not \<open>v\<close>.
\<close>

definition uncorrectable :: "kernels \<Rightarrow> int \<Rightarrow> int \<Rightarrow> int list \<Rightarrow> bool" where
  "uncorrectable K t primitive_element syn =
     (\<not> all_zero syn \<and>
      (case BERLEKAMP_MASSEY K syn of
         Inl e \<Rightarrow> False
       | Inr sigma \<Rightarrow>
           (case BERLEKAMP_MASSEY K (rev syn) of
              Inl e \<Rightarrow> False
            | Inr sigma_rev \<Rightarrow>
                int (length sigma) - 1 > t \<or>
                (case POLY_ROOTS K (map int (rev [0..<length sigma_rev])) sigma_rev
                        primitive_element of
                   Inl e \<Rightarrow> False
                 | Inr results \<Rightarrow> int (length results) \<noteq> int (length sigma) - 1))))"

lemma forney_step_length:
  "forney_step K n Z0 sp bl row = Inr row' \<Longrightarrow> length row' = length row"
  by (auto simp: forney_step_def rbind_eq_Inr Let_def split: option.splits)

lemma forney_loop_length:
  "forney_loop K n Z0 sp bls row = Inr row' \<Longrightarrow> length row' = length row"
proof (induction bls arbitrary: row)
  case Nil
  then show ?case by simp
next
  case (Cons bl bls)
  then obtain r where s: "forney_step K n Z0 sp bl row = Inr r"
    and l: "forney_loop K n Z0 sp bls r = Inr row'"
    by (auto simp: rbind_eq_Inr)
  from Cons.IH [OF l] forney_step_length [OF s] show ?case by simp
qed

lemma decode_row_uncorrectable:
  assumes "uncorrectable K t pe syn"
  shows "decode_row K t pe cw syn = Inr (cw @ [- 1])"
proof -
  from assms obtain sigma sigma_rev where nz: "\<not> all_zero syn"
    and s: "BERLEKAMP_MASSEY K syn = Inr sigma"
    and r: "BERLEKAMP_MASSEY K (rev syn) = Inr sigma_rev"
    and c: "int (length sigma) - 1 > t \<or>
      (case POLY_ROOTS K (map int (rev [0..<length sigma_rev])) sigma_rev pe of
         Inl e \<Rightarrow> False
       | Inr results \<Rightarrow> int (length results) \<noteq> int (length sigma) - 1)"
    by (auto simp: uncorrectable_def split: sum.splits)
  show ?thesis
  proof (cases "int (length sigma) - 1 > t")
    case True
    with nz s r show ?thesis by (simp add: decode_row_def Let_def)
  next
    case False
    with c obtain results where
      p: "POLY_ROOTS K (map int (rev [0..<length sigma_rev])) sigma_rev pe = Inr results"
      and d: "int (length results) \<noteq> int (length sigma) - 1"
      by (auto split: sum.splits)
    with nz s r False show ?thesis by (simp add: decode_row_def Let_def)
  qed
qed

lemma decode_row_count:
  assumes "decode_row K t pe cw syn = Inr row"
  shows "length row = Suc (length cw) \<and>
    (row ! length cw = - 1 \<longleftrightarrow> uncorrectable K t pe syn)"
proof (cases "uncorrectable K t pe syn")
  case True
  from decode_row_uncorrectable [OF True, of cw] assms show ?thesis
    using True by (auto simp: nth_append)
next
  case False
  show ?thesis
  proof (cases "all_zero syn")
    case True
    with assms False show ?thesis by (auto simp: decode_row_def Let_def nth_append)
  next
    case nz: False
    from assms nz obtain sigma sigma_rev where
      s: "BERLEKAMP_MASSEY K syn = Inr sigma"
      and r: "BERLEKAMP_MASSEY K (rev syn) = Inr sigma_rev"
      by (auto simp: decode_row_def Let_def rbind_eq_Inr)
    from False nz s r have le: "\<not> int (length sigma) - 1 > t"
      by (auto simp: uncorrectable_def)
    with assms nz s r obtain results where
      p: "POLY_ROOTS K (map int (rev [0..<length sigma_rev])) sigma_rev pe = Inr results"
      by (auto simp: decode_row_def Let_def rbind_eq_Inr)
    from False nz s r le p have eq: "int (length results) = int (length sigma) - 1"
      by (auto simp: uncorrectable_def)
    from assms nz s r le p eq obtain Z0 sp row' where
      l: "forney_loop K (length cw) Z0 sp results (cw @ [0]) = Inr row'"
      and e: "row = row'[length cw := int (length sigma) - 1]"
      by (auto simp: decode_row_def Let_def rbind_eq_Inr split: if_splits)
    from forney_loop_length [OF l] have "length row' = Suc (length cw)" by simp
    with e eq False show ?thesis by auto
  qed
qed

section \<open>The kernels of src/galois/meta\_mixin\_jit.py\<close>

text \<open>
  \<open>_convolve_jit\<close>: \<open>c = zeros(a.size + b.size - 1)\<close>, then for \<open>i\<close> ascending and
  \<open>j\<close> descending \<open>c[i + j] = ADD_JIT(c[i + j], MULTIPLY_JIT(a[i], b[j]))\<close>. The two
  arithmetic globals are parameters. \<open>zeros\<close> of a negative size raises.
\<close>

definition convolve_jit ::
  "(int \<Rightarrow> int \<Rightarrow> int) \<Rightarrow> (int \<Rightarrow> int \<Rightarrow> int) \<Rightarrow> int list \<Rightarrow> int list \<Rightarrow> int list result" where
  "convolve_jit add mul a b =
     (if length a + length b = 0 then Inl ValueError
      else Inr (fold (\<lambda>i. fold (\<lambda>j c. c[i + j := add (c ! (i + j)) (mul (a ! i) (b ! j))])
                              (rev [0..<length b]))
                  [0..<length a] (replicate (length a + length b - 1) 0)))"

text \<open>
  \<open>_poly_evaluate_jit\<close> for one value: \<open>results[i] = coeffs[0]\<close>, then for
  \<open>j = 1, ...\<close> \<open>results[i] = ADD_JIT(coeffs[j], MULTIPLY_JIT(results[i], values[i]))\<close>.
  Reading \<open>coeffs[0]\<close> of an empty array is modelled as \<open>IndexError\<close>.
\<close>

definition poly_evaluate_jit ::
  "(int \<Rightarrow> int \<Rightarrow> int) \<Rightarrow> (int \<Rightarrow> int \<Rightarrow> int) \<Rightarrow> int list \<Rightarrow> int \<Rightarrow> int result" where
  "poly_evaluate_jit add mul coeffs x =
     (case coeffs of
        [] \<Rightarrow> Inl IndexError
      | c # cs \<Rightarrow> Inr (foldl (\<lambda>r cj. add cj (mul r x)) c cs))"

section \<open>A concrete field: GF(5)\<close>

text \<open>
  The prime field GF(5) with primitive element 2, the field of the RS(4, 2) code, used
  to run the model on concrete codewords. Its arithmetic is arithmetic modulo 5.
  Modelled from the spec: the root search is the exhaustive search of section 4.2,
  which returns each root with its power of the primitive element.
  The Berlekamp-Massey kernel is not part of the sources; \<open>gf5_locator\<close> is the table
  of the error locators of the syndromes used below (coefficients in descending
  degree): \<open>1 - 3 x\<close> for the syndrome \<open>[3, 4]\<close> of a single error of value 1 at
  position 0, its reversal \<open>x - 3\<close> for \<open>[4, 3]\<close>, and a locator of degree 2 for
  \<open>[2, 0]\<close> and \<open>[0, 2]\<close>, the syndrome of two errors.
\<close>

definition gf5_add :: "int \<Rightarrow> int \<Rightarrow> int" where
  "gf5_add a b = (a + b) mod 5"

definition gf5_subtract :: "int \<Rightarrow> int \<Rightarrow> int" where
  "gf5_subtract a b = (a - b) mod 5"

definition gf5_multiply :: "int \<Rightarrow> int \<Rightarrow> int" where
  "gf5_multiply a b = (a * b) mod 5"

definition gf5_reciprocal :: "int \<Rightarrow> int result" where
  "gf5_reciprocal a = (if a = 0 then Inl ZeroDivisionError else Inr ((a * a * a) mod 5))"

definition gf5_power :: "int \<Rightarrow> int \<Rightarrow> int result" where
  "gf5_power a e =
     (if e < 0 then rbind (gf5_reciprocal a) (\<lambda>r. Inr ((r ^ nat (- e)) mod 5))
      else Inr ((a ^ nat e) mod 5))"

definition gf5_poly_roots :: "int list \<Rightarrow> int list \<Rightarrow> int \<Rightarrow> (int \<times> int) list result" where
  "gf5_poly_roots degrees coeffs alpha =
     Inr (filter (\<lambda>(x, i). poly_evaluate_jit gf5_add gf5_multiply coeffs x = Inr 0)
            (map (\<lambda>i. ((alpha ^ i) mod 5, int i)) [0..<4]))"

definition gf5_locator :: "int list \<Rightarrow> int list result" where
  "gf5_locator syn =
     (if syn = [3, 4] then Inr [2, 1]
      else if syn = [4, 3] then Inr [1, 2]
      else if syn = [2, 0] \<or> syn = [0, 2] then Inr [1, 0, 1]
      else Inl ValueError)"

definition gf5 :: kernels where
  "gf5 = \<lparr>ADD = gf5_add, SUBTRACT = gf5_subtract, MULTIPLY = gf5_multiply,
          RECIPROCAL = gf5_reciprocal, POWER = gf5_power,
          BERLEKAMP_MASSEY = gf5_locator, POLY_ROOTS = gf5_poly_roots,
          POLY_EVAL = poly_evaluate_jit gf5_add gf5_multiply,
          CONVOLVE = convolve_jit gf5_add gf5_multiply,
          CHARACTERISTIC = 5, DEGREE = 1, IRREDUCIBLE_POLY = 0\<rparr>"

section \<open>Arrays\<close>

text \<open>
  A numpy array by its number of dimensions: a 0-d array, a 1-D array, a 2-D array with
  its number of columns and the list of its rows (every row has that many entries), and
  an array of \<open>3 + d\<close> dimensions with its last dimension, whose entries no modelled
  function reads. Entries are
  integers of any size: the casts to and from \<open>int64\<close> keep every field element.
  \<open>atype\<close> is the class of the array: \<open>0\<close> for a plain \<open>numpy.ndarray\<close>, the identifier
  of its field class otherwise; \<open>view\<close> changes it and keeps the data.
\<close>

datatype ndarray = Scalar int | Vec "int list" | Mat nat "int list list" | Tensor nat nat

record farray =
  atype :: nat
  adata :: ndarray

fun ndim :: "ndarray \<Rightarrow> nat" where
  "ndim (Scalar x) = 0"
| "ndim (Vec xs) = 1"
| "ndim (Mat c rs) = 2"
| "ndim (Tensor d l) = 3 + d"

fun wf_array :: "ndarray \<Rightarrow> bool" where
  "wf_array (Mat c rs) = list_all (\<lambda>r. length r = c) rs"
| "wf_array a = True"

definition view :: "nat \<Rightarrow> farray \<Rightarrow> farray" where
  "view ty a = a\<lparr>atype := ty\<rparr>"

text \<open>The transpose \<open>A.T\<close> of a 2-D array.\<close>

definition transpose_rows :: "nat \<Rightarrow> int list list \<Rightarrow> int list list" where
  "transpose_rows c rs = map (\<lambda>j. map (\<lambda>r. r ! j) rs) [0..<c]"

section \<open>Field classes\<close>

datatype ufunc_mode = JitLookup | JitCalculate | PythonCalculate

text \<open>
  A field class as the modelled functions read it: its kernels, its order, its primitive
  element, its \<open>ufunc_mode\<close>, whether it is a prime field, the identifier that stands
  for the class itself, the division kernel \<open>DIVIDE_JIT\<close>, and two methods that
  are not part of the sources: the check of the view cast \<open>a.view(field)\<close>, which
  raises for an array the field does not accept (the cast itself keeps the data), and
  \<open>_poly_divmod\<close> over the rows of a 2-D array, which the decoder of non-systematic
  codes calls.
\<close>

record field_class =
  kern :: kernels
  order :: int
  primitive_element :: int
  ufunc_mode :: ufunc_mode
  is_prime_field :: bool
  class_id :: nat
  DIVIDE :: "int \<Rightarrow> int \<Rightarrow> int result"
  view_check :: "ndarray \<Rightarrow> unit result"
  poly_divmod_rows :: "int list list \<Rightarrow> int list \<Rightarrow> (int list list \<times> int list list) result"

section \<open>Matrix multiplication (src/galois/meta\_mixin\_jit.py)\<close>

text \<open>
  \<open>_matmul_jit\<close>: \<open>M, K = A.shape; K, N = B.shape\<close>, \<open>C = zeros((M, N))\<close> and, for
  \<open>i\<close>, \<open>j\<close>, \<open>k\<close> ascending, \<open>C[i,j] = ADD_JIT(C[i,j], MULTIPLY_JIT(A[i,k], B[k,j]))\<close>.
  \<open>B\<close> is given with its number of columns \<open>N\<close>; \<open>K\<close> is its number of rows.
\<close>

definition matmul_jit ::
  "(int \<Rightarrow> int \<Rightarrow> int) \<Rightarrow> (int \<Rightarrow> int \<Rightarrow> int) \<Rightarrow> int list list \<Rightarrow> nat \<Rightarrow> int list list
     \<Rightarrow> int list list" where
  "matmul_jit add mul A N B =
     map (\<lambda>row. map (\<lambda>j. foldl (\<lambda>c k. add c (mul (row ! k) (B ! k ! j))) 0 [0..<length B])
                  [0..<N]) A"

text \<open>
  \<open>_matmul_python\<close>: \<open>C[i,j] = np.sum(A[i,:] * B[:,j])\<close>, the product taken entry by
  entry with the field's multiplication and the sum a reduction with its addition,
  from the first entry on; the sum of no entries is 0.
\<close>

definition field_sum :: "(int \<Rightarrow> int \<Rightarrow> int) \<Rightarrow> int list \<Rightarrow> int" where
  "field_sum add xs = (case xs of [] \<Rightarrow> 0 | x # ys \<Rightarrow> foldl add x ys)"

definition matmul_python ::
  "(int \<Rightarrow> int \<Rightarrow> int) \<Rightarrow> (int \<Rightarrow> int \<Rightarrow> int) \<Rightarrow> int list list \<Rightarrow> nat \<Rightarrow> int list list
     \<Rightarrow> int list list" where
  "matmul_python add mul A N B =
     map (\<lambda>row. map (\<lambda>j. field_sum add (map (\<lambda>k. mul (row ! k) (B ! k ! j)) [0..<length B]))
                  [0..<N]) A"

text \<open>
  Modelled from the spec: \<open>_lapack_linalg\<close> (galois/linalg.py) is not part of the
  sources. Section 4.3: for prime fields the product is the integer matrix product
  reduced modulo the characteristic, and shapes that do not fit fail. \<open>np_matmul\<close> is
  numpy's \<open>matmul\<close> on integer arrays of one or two dimensions: a 1-D left operand is a
  row, a 1-D right operand a column, and the added dimension is dropped from the result.
\<close>

definition int_dot :: "int list \<Rightarrow> int list \<Rightarrow> int" where
  "int_dot xs ys = sum_list (map2 (*) xs ys)"

definition column :: "int list list \<Rightarrow> nat \<Rightarrow> int list" where
  "column B j = map (\<lambda>r. r ! j) B"

fun np_matmul :: "ndarray \<Rightarrow> ndarray \<Rightarrow> ndarray result" where
  "np_matmul (Vec a) (Vec b) =
     (if length a = length b then Inr (Scalar (int_dot a b)) else Inl ValueError)"
| "np_matmul (Vec a) (Mat N B) =
     (if length a = length B then Inr (Vec (map (\<lambda>j. int_dot a (column B j)) [0..<N]))
      else Inl ValueError)"
| "np_matmul (Mat K A) (Vec b) =
     (if K = length b then Inr (Vec (map (\<lambda>row. int_dot row b) A)) else Inl ValueError)"
| "np_matmul (Mat K A) (Mat N B) =
     (if K = length B
      then Inr (Mat N (map (\<lambda>row. map (\<lambda>j. int_dot row (column B j)) [0..<N]) A))
      else Inl ValueError)"
| "np_matmul a b = Inl ValueError"

fun map_array :: "(int \<Rightarrow> int) \<Rightarrow> ndarray \<Rightarrow> ndarray" where
  "map_array f (Scalar x) = Scalar (f x)"
| "map_array f (Vec xs) = Vec (map f xs)"
| "map_array f (Mat c rs) = Mat c (map (map f) rs)"
| "map_array f (Tensor d l) = Tensor d l"

definition lapack_linalg :: "field_class \<Rightarrow> farray \<Rightarrow> farray \<Rightarrow> farray result" where
  "lapack_linalg F A B =
     rbind (np_matmul (adata A) (adata B)) (\<lambda>C.
       Inr \<lparr>atype = atype A, adata = map_array (\<lambda>x. x mod CHARACTERISTIC (kern F)) C\<rparr>)"

text \<open>
  \<open>JITMixin._matmul\<close>. \<open>F\<close> is the class \<open>cls\<close>, which is \<open>type(A)\<close> when the method
  runs for \<open>A @ B\<close>. The three checks come first, then the prime-field path, then the
  reshaping of 1-D operands, the shape check and the product; \<open>prepend\<close> and \<open>append\<close>
  remove the added dimensions from the result.
\<close>

definition matmul :: "field_class \<Rightarrow> farray \<Rightarrow> farray \<Rightarrow> farray result" where
  "matmul F A B =
     (if atype A \<noteq> atype B then Inl TypeError
      else if \<not> (ndim (adata A) \<ge> 1 \<and> ndim (adata B) \<ge> 1) then Inl ValueError
      else if \<not> (ndim (adata A) \<le> 2 \<and> ndim (adata B) \<le> 2) then Inl ValueError
      else if is_prime_field F then lapack_linalg F A B
      else
        let (prepend, K, A2) =
              (case adata A of Vec a \<Rightarrow> (True, length a, [a]) | Mat c rs \<Rightarrow> (False, c, rs)
               | _ \<Rightarrow> (False, 0, []));
            (append, N, B2) =
              (case adata B of Vec b \<Rightarrow> (True, 1, map (\<lambda>x. [x]) b) | Mat c rs \<Rightarrow> (False, c, rs)
               | _ \<Rightarrow> (False, 0, []))
        in
        if K \<noteq> length B2 then Inl ValueError
        else
          let C = (if ufunc_mode F = PythonCalculate
                   then matmul_python (ADD (kern F)) (MULTIPLY (kern F)) A2 N B2
                   else matmul_jit (ADD (kern F)) (MULTIPLY (kern F)) A2 N B2)
          in Inr \<lparr>atype = atype A,
                  adata = (if prepend \<and> append then Scalar (hd (hd C))
                           else if prepend then Vec (hd C)
                           else if append then Vec (map hd C)
                           else Mat N C)\<rparr>)"

section \<open>The Reed-Solomon code (src/galois/code/reed\_solomon.py)\<close>







record reed_solomon =
  rs_n :: int
  rs_k :: int
  rs_c :: int
  rs_systematic :: bool
  rs_generator_poly_coeffs :: "int list"
  rs_roots :: "int list"
  rs_field :: field_class
  rs_t :: int
  rs_G :: "int list list"
  rs_H :: "int list list"
  rs_is_narrow_sense :: bool


text \<open>Python slices \<open>a[k:]\<close> and \<open>a[0:k]\<close>; a negative \<open>k\<close> counts from the end.\<close>

definition py_from :: "int \<Rightarrow> 'a list \<Rightarrow> 'a list" where
  "py_from k xs = (if k \<ge> 0 then drop (nat k) xs else drop (nat (int (length xs) + k)) xs)"

definition py_upto :: "int \<Rightarrow> 'a list \<Rightarrow> 'a list" where
  "py_upto k xs = (if k \<ge> 0 then take (nat k) xs else take (nat (int (length xs) + k)) xs)"

text \<open>\<open>shape[-1]\<close>; a 0-d array has the empty shape.\<close>

fun last_dim :: "ndarray \<Rightarrow> nat option" where
  "last_dim (Scalar x) = None"
| "last_dim (Vec xs) = Some (length xs)"
| "last_dim (Mat c rs) = Some c"
| "last_dim (Tensor d l) = Some l"

text \<open>\<open>np.hstack\<close> of two arrays: 1-D arrays are joined, 2-D arrays are joined row by row.\<close>

fun hstack :: "ndarray \<Rightarrow> ndarray \<Rightarrow> ndarray result" where
  "hstack (Vec a) (Vec b) = Inr (Vec (a @ b))"
| "hstack (Mat c1 r1) (Mat c2 r2) =
     (if length r1 = length r2 then Inr (Mat (c1 + c2) (map2 (@) r1 r2)) else Inl ValueError)"
| "hstack a b = Inl ValueError"

fun atleast_2d :: "ndarray \<Rightarrow> ndarray" where
  "atleast_2d (Scalar x) = Mat 1 [[x]]"
| "atleast_2d (Vec xs) = Mat (length xs) [xs]"
| "atleast_2d a = a"

definition field_array :: "field_class \<Rightarrow> ndarray \<Rightarrow> farray" where
  "field_array F a = \<lparr>atype = class_id F, adata = a\<rparr>"

text \<open>\<open>a.view(self.field)\<close>: the check of the field class, then the same data as an
  array of that class.\<close>

definition view_field :: "field_class \<Rightarrow> ndarray \<Rightarrow> farray result" where
  "view_field F a = rbind (view_check F a) (\<lambda>u. Inr (field_array F a))"

text \<open>
  \<open>ReedSolomon.encode\<close>. The message is typed as an array, so the \<open>isinstance\<close> check
  passes. \<open>G[:, k:]\<close> is the parity part of the generator matrix.
\<close>

definition encode :: "reed_solomon \<Rightarrow> farray \<Rightarrow> bool \<Rightarrow> farray result" where
  "encode R message parity_only =
     (let F = rs_field R;
          n = nat (rs_n R);
          Gp = field_array F (Mat (length (py_from (rs_k R) (replicate n (0::int))))
                                (map (py_from (rs_k R)) (rs_G R)));
          G = field_array F (Mat n (rs_G R)) in
      if parity_only \<and> \<not> rs_systematic R then Inl ValueError
      else
        (case last_dim (adata message) of
           None \<Rightarrow> Inl IndexError
         | Some d \<Rightarrow>
             if \<not> int d = rs_k R then Inl ValueError
             else if parity_only then
               rbind (view_field F (adata message)) (\<lambda>m.
               rbind (matmul F m Gp) (\<lambda>parity.
                 Inr (view (atype message) parity)))
             else if rs_systematic R then
               rbind (view_field F (adata message)) (\<lambda>m.
               rbind (matmul F m Gp) (\<lambda>parity.
               rbind (hstack (adata message) (adata parity)) (\<lambda>cw.
                 Inr \<lparr>atype = atype message, adata = cw\<rparr>)))
             else
               rbind (view_field F (adata message)) (\<lambda>m.
               rbind (matmul F m G) (\<lambda>codeword.
                 Inr (view (atype message) codeword)))))"

text \<open>
  \<open>ReedSolomon.decode\<close>. The syndrome \<open>codeword.view(self.field) @ self.H.T\<close> of
  the codeword made 2-D is computed first; then the branch on
  \<open>ufunc_mode\<close>. The compiled decoder takes 2-D arrays only. The result is the
  message and, for \<open>errors=True\<close>, the number of corrected errors of every codeword.
  The input is typed as an array, so reading \<open>codeword.ndim\<close> does not raise.
\<close>

definition syndrome_of :: "reed_solomon \<Rightarrow> ndarray \<Rightarrow> farray result" where
  "syndrome_of R cw2 =
     (let F = rs_field R;
          HT = field_array F (Mat (length (rs_H R)) (transpose_rows (nat (rs_n R)) (rs_H R)))
      in rbind (view_field F cw2) (\<lambda>cwF. matmul F cwF HT))"

definition decode :: "reed_solomon \<Rightarrow> farray \<Rightarrow> bool \<Rightarrow> (farray \<times> ndarray option) result" where
  "decode R codeword errors =
     (let F = rs_field R;
          codeword_1d = (ndim (adata codeword) = 1);
          cw2 = atleast_2d (adata codeword)
      in
      rbind (syndrome_of R cw2) (\<lambda>syndrome.
        if ufunc_mode F \<noteq> PythonCalculate then
          (case (cw2, adata syndrome) of
             (Mat n cws, Mat s syns) \<Rightarrow>
               rbind (decode_calculate (kern F) (rs_t R) (primitive_element F) cws syns)
                 (\<lambda>dec_codeword.
                 let N_errors = map last dec_codeword in
                 rbind (if rs_systematic R
                        then Inr (length (py_upto (rs_k R) (replicate (Suc n) (0::int))),
                                  map (py_upto (rs_k R)) dec_codeword)
                        else rbind (poly_divmod_rows F
                                      (map (py_upto (rs_n R)) dec_codeword)
                                      (rs_generator_poly_coeffs R))
                               (\<lambda>(q, r). Inr (case q of [] \<Rightarrow> 0 | m # ms \<Rightarrow> length m, q)))
                   (\<lambda>(cols, message).
                 rbind (if codeword_1d
                        then (case (message, N_errors) of
                                (m # ms, e # es) \<Rightarrow> Inr (Vec m, Scalar e)
                              | _ \<Rightarrow> Inl IndexError)
                        else Inr (Mat cols message, Vec N_errors)) (\<lambda>(msg, N).
                   Inr (\<lparr>atype = atype codeword, adata = msg\<rparr>,
                        if errors then Some N else None))))
           | _ \<Rightarrow> Inl TypeError)
        else Inl NotImplementedError))"

section \<open>A concrete code: RS(4, 2) over GF(5)\<close>

text \<open>
  The field class of GF(5) in a given \<open>ufunc_mode\<close>, and the RS(4, 2) code with
  \<open>c = 1\<close> over it: the roots are \<open>2, 4\<close>, the generator polynomial is
  \<open>x^2 + 4 x + 3\<close>, and \<open>[1, 0, 2, 3]\<close>, \<open>[0, 1, 4, 3]\<close> are codewords. The view check
  accepts the arrays whose entries are field elements. The two methods of the class that
  are not part of the sources are not called on it below and raise.
\<close>

fun entries :: "ndarray \<Rightarrow> int list" where
  "entries (Scalar x) = [x]"
| "entries (Vec xs) = xs"
| "entries (Mat c rs) = concat rs"
| "entries (Tensor d l) = []"

definition check_values :: "int \<Rightarrow> ndarray \<Rightarrow> unit result" where
  "check_values q a = (if list_all (\<lambda>x. 0 \<le> x \<and> x < q) (entries a) then Inr () else Inl ValueError)"

definition gf5_class :: "ufunc_mode \<Rightarrow> field_class" where
  "gf5_class mode =
     \<lparr>kern = gf5, order = 5, primitive_element = 2, ufunc_mode = mode,
      is_prime_field = True, class_id = 5,
      DIVIDE = (\<lambda>a b. rbind (gf5_reciprocal b) (\<lambda>r. Inr (gf5_multiply a r))),
      view_check = check_values 5,
      poly_divmod_rows = (\<lambda>a b. Inl NotImplementedError)\<rparr>"

definition rs42 :: "ufunc_mode \<Rightarrow> reed_solomon" where
  "rs42 mode =
     \<lparr>rs_n = 4, rs_k = 2, rs_c = 1, rs_systematic = True,
      rs_generator_poly_coeffs = [1, 4, 3], rs_roots = [2, 4],
      rs_field = gf5_class mode, rs_t = 1,
      rs_G = [[1, 0, 2, 3], [0, 1, 4, 3]],
      rs_H = [[3, 4, 2, 1], [4, 1, 4, 1]],
      rs_is_narrow_sense = True\<rparr>"

section \<open>Rows of a batch\<close>

lemma decode_calculate_rows:
  "decode_calculate K t pe cws syns = Inr rows \<Longrightarrow>
     length rows = length cws \<and> length cws \<le> length syns \<and>
     (\<forall>i < length cws. decode_row K t pe (cws ! i) (syns ! i) = Inr (rows ! i))"
proof (induction K t pe cws syns arbitrary: rows rule: decode_calculate.induct)
  case (1 K t pe syndrome)
  then show ?case by simp
next
  case (2 K t pe cw cws)
  then show ?case by simp
next
  case (3 K t pe cw cws syn syns)
  from "3.prems" obtain row rest where r: "decode_row K t pe cw syn = Inr row"
    and c: "decode_calculate K t pe cws syns = Inr rest" and e: "rows = row # rest"
    by (auto simp: rbind_eq_Inr)
  from "3.IH" [OF c] r e show ?case
    by (auto simp: nth_Cons split: nat.splits)
qed

text \<open>
  C2. A row of the result ends with \<open>-1\<close> exactly when its syndrome is not zero and
  either \<open>v = sigma.size - 1\<close> exceeds \<open>t\<close> or the number of roots found for
  \<open>sigma_rev\<close> is not \<open>v\<close>. In that case the row holds the received symbols unchanged,
  so the systematic message \<open>dec_codeword[i, 0:k]\<close> is made of them; the decoder raises
  nothing for this row and goes on with the remaining codewords, whose rows follow in
  the result.
\<close>

theorem uncorrectable_is_reported_not_raised:
  "(decode_row K t pe cw syn = Inr row \<longrightarrow>
      (row ! length cw = - 1) = uncorrectable K t pe syn) \<and>
   (uncorrectable K t pe syn \<longrightarrow>
      decode_row K t pe cw syn = Inr (cw @ [- 1]) \<and>
      (0 \<le> k \<and> k \<le> int (length cw) \<longrightarrow> py_upto k (cw @ [- 1]) = take (nat k) cw) \<and>
      decode_calculate K t pe (cw # cws) (syn # syns) =
        rbind (decode_calculate K t pe cws syns) (\<lambda>rows. Inr ((cw @ [- 1]) # rows)))"
proof (intro conjI impI)
  assume "decode_row K t pe cw syn = Inr row"
  from decode_row_count [OF this]
  show "(row ! length cw = - 1) = uncorrectable K t pe syn" by simp
next
  assume u: "uncorrectable K t pe syn"
  from decode_row_uncorrectable [OF u]
  show "decode_row K t pe cw syn = Inr (cw @ [- 1])" .
  from decode_row_uncorrectable [OF u, of cw]
  show "decode_calculate K t pe (cw # cws) (syn # syns) =
        rbind (decode_calculate K t pe cws syns) (\<lambda>rows. Inr ((cw @ [- 1]) # rows))"
    by simp
  assume "0 \<le> k \<and> k \<le> int (length cw)"
  then have "nat k \<le> length cw" by linarith
  with \<open>0 \<le> k \<and> k \<le> int (length cw)\<close> show "py_upto k (cw @ [- 1]) = take (nat k) cw"
    by (simp add: py_upto_def)
qed

text \<open>
  Witness: over GF(5) with \<open>t = 1\<close>, the received word \<open>[2, 1, 2, 3]\<close> (two errors) is
  reported with \<open>-1\<close> and left as received, and the next codeword \<open>[2, 0, 2, 3]\<close> of the
  batch (one error) is still corrected to \<open>[1, 0, 2, 3]\<close>.
\<close>

theorem uncorrectable_is_reported_not_raised_witness:
  "uncorrectable gf5 1 2 [2, 0] \<and>
   decode_row gf5 1 2 [2, 1, 2, 3] [2, 0] = Inr [2, 1, 2, 3, - 1] \<and>
   [2, 1, 2, 3, - 1] ! length [2, 1, 2, 3 :: int] = (- 1 :: int) \<and>
   py_upto 2 ([2, 1, 2, 3] @ [- 1 :: int]) = [2, 1] \<and>
   decode_calculate gf5 1 2 [[2, 1, 2, 3], [2, 0, 2, 3]] [[2, 0], [3, 4]] =
     Inr [[2, 1, 2, 3, - 1], [1, 0, 2, 3, 1]]"
proof -
  have u: "uncorrectable gf5 1 2 [2, 0]" by code_simp
  have r: "decode_calculate gf5 1 2 [[2, 0, 2, 3]] [[3, 4]] = Inr [[1, 0, 2, 3, 1]]"
    by code_simp
  have k: "(0::int) \<le> 2 \<and> 2 \<le> int (length [2, 1, 2, 3 :: int])" by simp
  note t = uncorrectable_is_reported_not_raised
    [of gf5 1 2 "[2, 1, 2, 3]" "[2, 0]" "[2, 1, 2, 3, - 1]" 2 "[[2, 0, 2, 3]]" "[[3, 4]]"]
  from t u have d: "decode_row gf5 1 2 [2, 1, 2, 3] [2, 0] = Inr ([2, 1, 2, 3] @ [- 1])"
    by blast
  from t u k have p: "py_upto 2 ([2, 1, 2, 3] @ [- 1 :: int]) = take (nat 2) [2, 1, 2, 3]"
    by blast
  from t u have c: "decode_calculate gf5 1 2 ([2, 1, 2, 3] # [[2, 0, 2, 3]]) ([2, 0] # [[3, 4]]) =
      rbind (decode_calculate gf5 1 2 [[2, 0, 2, 3]] [[3, 4]])
        (\<lambda>rows. Inr (([2, 1, 2, 3] @ [- 1]) # rows))"
    by blast
  from t d u have n: "[2, 1, 2, 3, - 1] ! length [2, 1, 2, 3 :: int] = (- 1 :: int)"
    by simp
  from u d p c r n show ?thesis by (simp add: numeral_2_eq_2)
qed

text \<open>
  C8. A batch is decoded row by row: when two calls of \<open>decode_calculate\<close> return, and
  row \<open>i\<close> of the codewords and of the syndromes is the same in both, row \<open>i\<close> of the two
  results (the decoded symbols and the error count) is the same, whatever the other rows
  are. Each result row is the result of decoding that row alone.
\<close>

theorem decode_calculate_row_noninterference:
  assumes "decode_calculate K t pe cws syns = Inr rows"
    and "decode_calculate K t pe cws' syns' = Inr rows'"
    and "i < length cws" and "i < length cws'"
    and "cws ! i = cws' ! i" and "syns ! i = syns' ! i"
  shows "rows ! i = rows' ! i \<and> decode_row K t pe (cws ! i) (syns ! i) = Inr (rows ! i)"
proof -
  from decode_calculate_rows [OF assms(1)] assms(3)
  have a: "decode_row K t pe (cws ! i) (syns ! i) = Inr (rows ! i)" by blast
  from decode_calculate_rows [OF assms(2)] assms(4)
  have b: "decode_row K t pe (cws' ! i) (syns' ! i) = Inr (rows' ! i)" by blast
  from a b assms(5,6) show ?thesis by simp
qed

text \<open>
  Witness: over GF(5), the codeword \<open>[2, 0, 2, 3]\<close> is decoded to the same row next to
  an uncorrectable codeword and next to an error-free one.
\<close>

theorem decode_calculate_row_noninterference_witness:
  "decode_calculate gf5 1 2 [[2, 1, 2, 3], [2, 0, 2, 3]] [[2, 0], [3, 4]] =
     Inr [[2, 1, 2, 3, - 1], [1, 0, 2, 3, 1]] \<and>
   decode_calculate gf5 1 2 [[1, 0, 2, 3], [2, 0, 2, 3]] [[0, 0], [3, 4]] =
     Inr [[1, 0, 2, 3, 0], [1, 0, 2, 3, 1]] \<and>
   [[2, 1, 2, 3, - 1], [1, 0, 2, 3, 1]] ! 1 = [[1, 0, 2, 3, 0], [1, 0, 2, 3, 1 :: int]] ! 1"
proof -
  have a: "decode_calculate gf5 1 2 [[2, 1, 2, 3], [2, 0, 2, 3]] [[2, 0], [3, 4]] =
     Inr [[2, 1, 2, 3, - 1], [1, 0, 2, 3, 1]]" by code_simp
  have b: "decode_calculate gf5 1 2 [[1, 0, 2, 3], [2, 0, 2, 3]] [[0, 0], [3, 4]] =
     Inr [[1, 0, 2, 3, 0], [1, 0, 2, 3, 1]]" by code_simp
  from decode_calculate_row_noninterference [OF a b, of 1] a b show ?thesis by simp
qed

section \<open>Matrix products row by row\<close>

lemma is_ok_Inl [simp]: "\<not> is_ok (Inl e)"
  by (simp add: is_ok_def)

lemma is_ok_Inr [simp]: "is_ok (Inr x)"
  by (simp add: is_ok_def)

lemma is_ok_iff: "is_ok m \<longleftrightarrow> (\<exists>x. m = Inr x)"
  by (cases m) simp_all

lemma length_transpose_rows [simp]: "length (transpose_rows c rs) = c"
  by (simp add: transpose_rows_def)

lemma matmul_shape_mismatch:
  assumes "K \<noteq> length B"
  shows "matmul F \<lparr>atype = ty, adata = Mat K A\<rparr> \<lparr>atype = ty, adata = Mat N B\<rparr> = Inl ValueError"
  using assms by (simp add: matmul_def lapack_linalg_def Let_def)

lemma matmul_tensor:
  "matmul F \<lparr>atype = ty, adata = Tensor d l\<rparr> \<lparr>atype = ty, adata = B\<rparr> = Inl ValueError"
  by (simp add: matmul_def)

lemma matmul_2d_ok:
  assumes "K = length B"
  shows "\<exists>C. matmul F \<lparr>atype = ty, adata = Mat K A\<rparr> \<lparr>atype = ty, adata = Mat N B\<rparr> =
           Inr \<lparr>atype = ty, adata = Mat N C\<rparr> \<and> length C = length A"
  using assms by (simp add: matmul_def lapack_linalg_def Let_def matmul_jit_def matmul_python_def)


text \<open>
  One row of a product \<open>A @ B\<close> on each of the three paths of \<open>_matmul\<close>: the
  prime-field path, the Python path and the compiled path.
\<close>

definition row_matmul :: "field_class \<Rightarrow> int list \<Rightarrow> nat \<Rightarrow> int list list \<Rightarrow> int list" where
  "row_matmul F row N B =
     (if is_prime_field F
      then map (\<lambda>j. int_dot row (column B j) mod CHARACTERISTIC (kern F)) [0..<N]
      else if ufunc_mode F = PythonCalculate
      then map (\<lambda>j. field_sum (ADD (kern F))
                       (map (\<lambda>k. MULTIPLY (kern F) (row ! k) (B ! k ! j)) [0..<length B])) [0..<N]
      else map (\<lambda>j. foldl (\<lambda>c k. ADD (kern F) c (MULTIPLY (kern F) (row ! k) (B ! k ! j))) 0
                       [0..<length B]) [0..<N])"

lemma matmul_2d:
  assumes "K = length B"
  shows "matmul F \<lparr>atype = ty, adata = Mat K A\<rparr> \<lparr>atype = ty, adata = Mat N B\<rparr> =
           Inr \<lparr>atype = ty, adata = Mat N (map (\<lambda>row. row_matmul F row N B) A)\<rparr>"
  using assms
  by (simp add: matmul_def lapack_linalg_def Let_def matmul_jit_def matmul_python_def
      row_matmul_def)

lemma matmul_1d_2d:
  assumes "length a = length B"
  shows "matmul F \<lparr>atype = ty, adata = Vec a\<rparr> \<lparr>atype = ty, adata = Mat N B\<rparr> =
           Inr \<lparr>atype = ty, adata = Vec (row_matmul F a N B)\<rparr>"
  using assms
  by (simp add: matmul_def lapack_linalg_def Let_def matmul_jit_def matmul_python_def
      row_matmul_def)

lemma length_row_matmul [simp]: "length (row_matmul F row N B) = N"
  by (simp add: row_matmul_def)

lemma encode_ok:
  assumes g: "int (length (rs_G R)) = rs_k R"
    and m: "ndim (adata message) \<in> {1, 2}" "last_dim (adata message) = Some (nat (rs_k R))"
    and v: "is_ok (view_check (rs_field R) (adata message))"
    and p: "parity_only \<longrightarrow> rs_systematic R"
  shows "is_ok (encode R message parity_only)"
proof -
  from g have k: "int (nat (rs_k R)) = rs_k R" "length (rs_G R) = nat (rs_k R)" by auto
  from v obtain u where u: "view_check (rs_field R) (adata message) = Inr u"
    by (auto simp: is_ok_iff)
  from m consider (vec) xs where "adata message = Vec xs" "length xs = nat (rs_k R)"
    | (mat) rs where "adata message = Mat (nat (rs_k R)) rs"
    by (cases "adata message") auto
  then show ?thesis
  proof cases
    case vec
    with k u p show ?thesis
      by (simp add: encode_def Let_def view_field_def field_array_def matmul_1d_2d view_def)
  next
    case mat
    with k u p show ?thesis
      by (simp add: encode_def Let_def view_field_def field_array_def matmul_2d view_def)
  qed
qed

lemma syndrome_of_wrong_dim:
  assumes "last_dim a = Some d" and "int d \<noteq> rs_n R" and "0 \<le> rs_n R"
    and "view_check (rs_field R) (atleast_2d a) = Inr u"
  shows "syndrome_of R (atleast_2d a) = Inl ValueError"
proof (cases a)
  case (Scalar x)
  with assms show ?thesis by simp
next
  case (Vec xs)
  with assms have "length xs \<noteq> nat (rs_n R)" by auto
  with Vec assms(4) show ?thesis
    by (simp add: syndrome_of_def view_field_def field_array_def Let_def matmul_shape_mismatch)
next
  case (Mat c rs)
  with assms have "c \<noteq> nat (rs_n R)" by auto
  with Mat assms(4) show ?thesis
    by (simp add: syndrome_of_def view_field_def field_array_def Let_def matmul_shape_mismatch)
next
  case (Tensor d l)
  with assms(4) show ?thesis
    by (simp add: syndrome_of_def view_field_def field_array_def Let_def matmul_tensor)
qed

lemma decode_syndrome_error:
  "syndrome_of R (atleast_2d (adata codeword)) = Inl e \<Longrightarrow> decode R codeword errors = Inl e"
  by (simp add: decode_def Let_def)

section \<open>Malformed codewords and unsupported fields\<close>

lemma decode_any_class:
  "decode R (codeword\<lparr>atype := ty\<rparr>) errors =
     map_sum id (\<lambda>(m, N). (m\<lparr>atype := ty\<rparr>, N)) (decode R codeword errors)"
proof (cases "syndrome_of R (atleast_2d (adata codeword))")
  case (Inl e)
  then show ?thesis by (simp add: decode_def Let_def)
next
  case (Inr syndrome)
  show ?thesis
  proof (cases "ufunc_mode (rs_field R) = PythonCalculate")
    case True
    with Inr show ?thesis by (simp add: decode_def Let_def)
  next
    case False
    with Inr show ?thesis
      by (auto simp: decode_def Let_def rbind_def
          split: sum.splits ndarray.splits prod.splits list.splits)
  qed
qed


text \<open>
  C6. A codeword whose last dimension is not \<open>n\<close> is refused with a typed error, for
  every code and every field: \<open>decode\<close> returns nothing, and the error is
  \<open>ValueError\<close> unless the view cast to the field has already raised its own error.
  \<open>decode\<close> has no check of its own: the error is raised by the syndrome product
  \<open>codeword @ H.T\<close>, by its shape check (or, for three and more dimensions, by its
  dimension check), which comes before any field arithmetic, so \<open>decode_calculate\<close> is
  not reached. Nor does \<open>decode\<close> check the class of the array: an array of another
  class, a plain \<open>numpy.ndarray\<close> among them, is cast to the field and decoded as the
  field array with the same data is, and the message has the class of the input. The
  arguments are typed as arrays; an argument of another Python type is outside the model.
\<close>

theorem decode_rejects_wrong_length:
  "(last_dim (adata codeword) = Some d \<and> int d \<noteq> rs_n R \<and> 0 \<le> rs_n R \<longrightarrow>
      \<not> is_ok (decode R codeword errors) \<and>
      (is_ok (view_check (rs_field R) (atleast_2d (adata codeword))) \<longrightarrow>
         syndrome_of R (atleast_2d (adata codeword)) = Inl ValueError \<and>
         decode R codeword errors = Inl ValueError)) \<and>
   decode R (codeword\<lparr>atype := ty\<rparr>) errors =
     map_sum id (\<lambda>(m, N). (m\<lparr>atype := ty\<rparr>, N)) (decode R codeword errors)"
proof (intro conjI impI)
  assume a: "last_dim (adata codeword) = Some d \<and> int d \<noteq> rs_n R \<and> 0 \<le> rs_n R"
  then have a1: "last_dim (adata codeword) = Some d" and a2: "int d \<noteq> rs_n R"
    and a3: "0 \<le> rs_n R" by simp_all
  show "\<not> is_ok (decode R codeword errors)"
  proof (cases "view_check (rs_field R) (atleast_2d (adata codeword))")
    case (Inl e)
    then have "decode R codeword errors = Inl e"
      by (simp add: decode_def syndrome_of_def view_field_def Let_def)
    then show ?thesis by simp
  next
    case (Inr u)
    from decode_syndrome_error [OF syndrome_of_wrong_dim [OF a1 a2 a3 Inr]]
    show ?thesis by simp
  qed
  assume "is_ok (view_check (rs_field R) (atleast_2d (adata codeword)))"
  then obtain u where u: "view_check (rs_field R) (atleast_2d (adata codeword)) = Inr u"
    unfolding is_ok_iff ..
  show "syndrome_of R (atleast_2d (adata codeword)) = Inl ValueError"
    by (rule syndrome_of_wrong_dim [OF a1 a2 a3 u])
  then show "decode R codeword errors = Inl ValueError"
    by (rule decode_syndrome_error)
next
  show "decode R (codeword\<lparr>atype := ty\<rparr>) errors =
     map_sum id (\<lambda>(m, N). (m\<lparr>atype := ty\<rparr>, N)) (decode R codeword errors)"
    by (rule decode_any_class)
qed

text \<open>
  Witness: a codeword of three symbols for the RS(4, 2) code, and the codeword
  \<open>[1, 0, 2, 3]\<close> as an array of the class of GF(5) and as a plain array.
\<close>

theorem decode_rejects_wrong_length_witness:
  "last_dim (adata \<lparr>atype = 0, adata = Vec [2, 0, 2]\<rparr>) = Some 3 \<and>
   int 3 \<noteq> rs_n (rs42 JitLookup) \<and> 0 \<le> rs_n (rs42 JitLookup) \<and>
   is_ok (view_check (rs_field (rs42 JitLookup)) (atleast_2d (Vec [2, 0, 2]))) \<and>
   syndrome_of (rs42 JitLookup) (atleast_2d (Vec [2, 0, 2])) = Inl ValueError \<and>
   decode (rs42 JitLookup) \<lparr>atype = 0, adata = Vec [2, 0, 2]\<rparr> True = Inl ValueError \<and>
   decode (rs42 JitLookup) \<lparr>atype = 5, adata = Vec [1, 0, 2, 3]\<rparr> True =
     Inr (\<lparr>atype = 5, adata = Vec [1, 0]\<rparr>, Some (Scalar 0)) \<and>
   decode (rs42 JitLookup) (\<lparr>atype = 5, adata = Vec [1, 0, 2, 3]\<rparr>\<lparr>atype := 0\<rparr>) True =
     Inr (\<lparr>atype = 0, adata = Vec [1, 0]\<rparr>, Some (Scalar 0))"
proof -
  have a: "last_dim (adata \<lparr>atype = 0, adata = Vec [2, 0, 2]\<rparr>) = Some 3" by simp
  have b: "int 3 \<noteq> rs_n (rs42 JitLookup)" by (simp add: rs42_def)
  have c: "0 \<le> rs_n (rs42 JitLookup)" by (simp add: rs42_def)
  have d: "is_ok (view_check (rs_field (rs42 JitLookup))
      (atleast_2d (adata \<lparr>atype = 0, adata = Vec [2, 0, 2]\<rparr>)))"
    by (simp add: rs42_def gf5_class_def check_values_def)
  note t = decode_rejects_wrong_length
    [where codeword = "\<lparr>atype = 0, adata = Vec [2, 0, 2]\<rparr>" and d = 3
       and R = "rs42 JitLookup" and errors = True, THEN conjunct1, THEN mp,
     OF conjI [OF a conjI [OF b c]], THEN conjunct2, THEN mp, OF d]
  from t have s: "syndrome_of (rs42 JitLookup) (atleast_2d (Vec [2, 0, 2])) = Inl ValueError"
    by simp
  from t have e: "decode (rs42 JitLookup) \<lparr>atype = 0, adata = Vec [2, 0, 2]\<rparr> True =
      Inl ValueError" by simp
  have f: "decode (rs42 JitLookup) \<lparr>atype = 5, adata = Vec [1, 0, 2, 3]\<rparr> True =
     Inr (\<lparr>atype = 5, adata = Vec [1, 0]\<rparr>, Some (Scalar 0))" by code_simp
  note u = decode_rejects_wrong_length
    [where codeword = "\<lparr>atype = 5, adata = Vec [1, 0, 2, 3]\<rparr>" and ty = 0
       and R = "rs42 JitLookup" and errors = True, THEN conjunct2]
  from u have g: "decode (rs42 JitLookup)
      (\<lparr>atype = 5, adata = Vec [1, 0, 2, 3]\<rparr>\<lparr>atype := 0\<rparr>) True =
     Inr (\<lparr>atype = 0, adata = Vec [1, 0]\<rparr>, Some (Scalar 0))"
    unfolding f by simp
  from d have d': "is_ok (view_check (rs_field (rs42 JitLookup)) (atleast_2d (Vec [2, 0, 2])))"
    by simp
  from a b c d' s e f g show ?thesis by (intro conjI)
qed

text \<open>
  The codeword \<open>[1, 0, 2, 3]\<close> of the RS(4, 2) code over GF(5) as a plain
  \<open>numpy.ndarray\<close>, which is not an array of the field: \<open>decode\<close> raises nothing and
  returns the message \<open>[1, 0]\<close> with no corrected error. And for the plain array
  \<open>[2, 0, 2]\<close> of three symbols the view cast returns: it is the syndrome product,
  begun with the array cast to the field, that raises.
\<close>

theorem decode_accepts_plain_array:
  "atype \<lparr>atype = 0, adata = Vec [1, 0, 2, 3]\<rparr> \<noteq> class_id (rs_field (rs42 JitLookup)) \<and>
   last_dim (adata \<lparr>atype = 0, adata = Vec [1, 0, 2, 3]\<rparr>) = Some (nat (rs_n (rs42 JitLookup))) \<and>
   decode (rs42 JitLookup) \<lparr>atype = 0, adata = Vec [1, 0, 2, 3]\<rparr> True =
     Inr (\<lparr>atype = 0, adata = Vec [1, 0]\<rparr>, Some (Scalar 0)) \<and>
   view_field (rs_field (rs42 JitLookup)) (atleast_2d (Vec [2, 0, 2])) =
     Inr \<lparr>atype = 5, adata = Mat 3 [[2, 0, 2]]\<rparr> \<and>
   matmul (rs_field (rs42 JitLookup)) \<lparr>atype = 5, adata = Mat 3 [[2, 0, 2]]\<rparr>
     (field_array (rs_field (rs42 JitLookup))
        (Mat (length (rs_H (rs42 JitLookup)))
           (transpose_rows (nat (rs_n (rs42 JitLookup))) (rs_H (rs42 JitLookup))))) =
     Inl ValueError"
proof (intro conjI)
  show "atype \<lparr>atype = 0, adata = Vec [1, 0, 2, 3]\<rparr> \<noteq> class_id (rs_field (rs42 JitLookup))"
    by (simp add: rs42_def gf5_class_def)
  show "last_dim (adata \<lparr>atype = 0, adata = Vec [1, 0, 2, 3]\<rparr>) =
      Some (nat (rs_n (rs42 JitLookup)))"
    by (simp add: rs42_def)
  show "decode (rs42 JitLookup) \<lparr>atype = 0, adata = Vec [1, 0, 2, 3]\<rparr> True =
     Inr (\<lparr>atype = 0, adata = Vec [1, 0]\<rparr>, Some (Scalar 0))" by code_simp
  show "view_field (rs_field (rs42 JitLookup)) (atleast_2d (Vec [2, 0, 2])) =
     Inr \<lparr>atype = 5, adata = Mat 3 [[2, 0, 2]]\<rparr>" by code_simp
  show "matmul (rs_field (rs42 JitLookup)) \<lparr>atype = 5, adata = Mat 3 [[2, 0, 2]]\<rparr>
     (field_array (rs_field (rs42 JitLookup))
        (Mat (length (rs_H (rs42 JitLookup)))
           (transpose_rows (nat (rs_n (rs42 JitLookup))) (rs_H (rs42 JitLookup))))) =
     Inl ValueError" by code_simp
qed

text \<open>
  C10. For a field whose \<open>ufunc_mode\<close> is \<open>python-calculate\<close>, \<open>decode\<close> never
  returns: whenever the syndrome has been computed it raises \<open>NotImplementedError\<close>,
  and the syndrome is computed for every 1-D or 2-D codeword of last dimension \<open>n\<close>
  that the view cast accepts. \<open>encode\<close> returns for every 1-D or 2-D message of last
  dimension \<open>k\<close> that the view cast accepts (the generator matrix has \<open>k\<close> rows),
  in this mode as in the others.
\<close>

theorem decode_python_calculate_raises:
  assumes "ufunc_mode (rs_field R) = PythonCalculate"
  shows "\<not> is_ok (decode R codeword errors) \<and>
         (is_ok (syndrome_of R (atleast_2d (adata codeword))) \<longrightarrow>
            decode R codeword errors = Inl NotImplementedError) \<and>
         (ndim (adata codeword) \<in> {1, 2} \<and> last_dim (adata codeword) = Some (nat (rs_n R)) \<and>
          is_ok (view_check (rs_field R) (atleast_2d (adata codeword))) \<longrightarrow>
            decode R codeword errors = Inl NotImplementedError) \<and>
         (int (length (rs_G R)) = rs_k R \<and> ndim (adata message) \<in> {1, 2} \<and>
          last_dim (adata message) = Some (nat (rs_k R)) \<and>
          is_ok (view_check (rs_field R) (adata message)) \<and>
          (parity_only \<longrightarrow> rs_systematic R) \<longrightarrow>
            is_ok (encode R message parity_only))"
proof -
  have 1: "decode R codeword errors = Inl NotImplementedError"
    if "is_ok (syndrome_of R (atleast_2d (adata codeword)))"
    using that assms by (auto simp: decode_def Let_def is_ok_iff)
  have 2: "\<not> is_ok (decode R codeword errors)"
  proof (cases "syndrome_of R (atleast_2d (adata codeword))")
    case (Inl e)
    from decode_syndrome_error [OF this] show ?thesis by simp
  next
    case (Inr s)
    with 1 show ?thesis by simp
  qed
  have 3: "is_ok (syndrome_of R (atleast_2d (adata codeword)))"
    if "ndim (adata codeword) \<in> {1, 2}" "last_dim (adata codeword) = Some (nat (rs_n R))"
       "is_ok (view_check (rs_field R) (atleast_2d (adata codeword)))"
  proof -
    from that(3) obtain u where u: "view_check (rs_field R) (atleast_2d (adata codeword)) = Inr u"
      by (auto simp: is_ok_iff)
    from that(1,2) obtain rs where "atleast_2d (adata codeword) = Mat (nat (rs_n R)) rs"
      by (cases "adata codeword") auto
    with u show ?thesis
      by (simp add: syndrome_of_def view_field_def field_array_def Let_def matmul_2d)
  qed
  from 1 2 3 encode_ok [of R message parity_only] show ?thesis by blast
qed

text \<open>
  Witness: the RS(4, 2) code over GF(5) with the field switched to \<open>python-calculate\<close>;
  the message \<open>[1, 0]\<close> is encoded to \<open>[1, 0, 2, 3]\<close>, which \<open>decode\<close> refuses.
\<close>

theorem decode_python_calculate_raises_witness:
  "ufunc_mode (rs_field (rs42 PythonCalculate)) = PythonCalculate \<and>
   encode (rs42 PythonCalculate) \<lparr>atype = 0, adata = Vec [1, 0]\<rparr> False =
     Inr \<lparr>atype = 0, adata = Vec [1, 0, 2, 3]\<rparr> \<and>
   is_ok (syndrome_of (rs42 PythonCalculate) (atleast_2d (Vec [1, 0, 2, 3]))) \<and>
   decode (rs42 PythonCalculate) \<lparr>atype = 0, adata = Vec [1, 0, 2, 3]\<rparr> True =
     Inl NotImplementedError"
proof -
  have m: "ufunc_mode (rs_field (rs42 PythonCalculate)) = PythonCalculate"
    by (simp add: rs42_def gf5_class_def)
  have e: "encode (rs42 PythonCalculate) \<lparr>atype = 0, adata = Vec [1, 0]\<rparr> False =
     Inr \<lparr>atype = 0, adata = Vec [1, 0, 2, 3]\<rparr>" by code_simp
  have s: "is_ok (syndrome_of (rs42 PythonCalculate) (atleast_2d (Vec [1, 0, 2, 3])))"
    by code_simp
  from decode_python_calculate_raises
    [OF m, of "\<lparr>atype = 0, adata = Vec [1, 0, 2, 3]\<rparr>" True] s
  have "decode (rs42 PythonCalculate) \<lparr>atype = 0, adata = Vec [1, 0, 2, 3]\<rparr> True =
     Inl NotImplementedError" by simp
  with m e s show ?thesis by simp
qed

section \<open>The Forney step\<close>

text \<open>
  The formal derivative as the specification words it (section 4.2): the coefficient of
  degree \<open>i\<close> is multiplied by \<open>i\<close> reduced modulo the characteristic \<open>p\<close>, and it
  drops to 0 whenever \<open>i\<close> is divisible by \<open>p\<close>. Coefficients are in descending degree;
  the constant term has no image.
\<close>

fun formal_derivative :: "int \<Rightarrow> (int \<Rightarrow> int \<Rightarrow> int) \<Rightarrow> int list \<Rightarrow> int list" where
  "formal_derivative p mul [] = []"
| "formal_derivative p mul [a0] = []"
| "formal_derivative p mul (a # as) =
     (let i = int (length as) in
      (if i mod p = 0 then 0 else mul (i mod p) a) # formal_derivative p mul as)"

lemma sigma_prime_of_Cons:
  "sigma_prime_of K (Suc v) (a # as) =
     MULTIPLY K (int (Suc v) mod CHARACTERISTIC K) a # sigma_prime_of K v as"
proof -
  have "[0..<Suc v] = 0 # map Suc [0..<v]"
    by (simp add: upt_conv_Cons map_Suc_upt del: upt_Suc)
  then show ?thesis
    by (simp add: sigma_prime_of_def comp_def del: upt_Suc)
qed

lemma sigma_prime_is_formal_derivative:
  assumes "\<forall>a. MULTIPLY K 0 a = 0"
  shows "length sigma = Suc v \<Longrightarrow>
     sigma_prime_of K v sigma = formal_derivative (CHARACTERISTIC K) (MULTIPLY K) sigma"
proof (induction v arbitrary: sigma)
  case 0
  then obtain a where "sigma = [a]" by (cases sigma) auto
  then show ?case by (simp add: sigma_prime_of_def)
next
  case (Suc v)
  then obtain a as where s: "sigma = a # as" and l: "length as = Suc v"
    by (cases sigma) auto
  from l obtain b bs where as: "as = b # bs" by (cases as) auto
  from Suc.IH [OF l] assms s l as show ?case
    by (simp add: sigma_prime_of_Cons Let_def del: sigma_prime_of_def)
qed

lemma decode_row_correctable:
  assumes "\<not> all_zero syn"
    and "BERLEKAMP_MASSEY K syn = Inr sigma"
    and "BERLEKAMP_MASSEY K (rev syn) = Inr sigma_rev"
    and "length sigma = Suc v" and "int v \<le> t"
    and "POLY_ROOTS K (map int (rev [0..<length sigma_rev])) sigma_rev pe = Inr results"
    and "length results = v"
    and "CHARACTERISTIC K \<noteq> 0"
  shows "decode_row K t pe cw syn =
     rbind (CONVOLVE K (last_slice v sigma) (rev (take v syn))) (\<lambda>conv.
     rbind (forney_loop K (length cw) (last_slice v conv) (sigma_prime_of K v sigma) results
              (cw @ [0])) (\<lambda>row'. Inr (row'[length cw := int v])))"
  using assms by (simp add: decode_row_def Let_def)

lemma forney_step_value:
  assumes "RECIPROCAL K beta = Inr beta_inv"
    and "POLY_EVAL K Z0 beta_inv = Inr z"
    and "POLY_EVAL K sp beta_inv = Inr s"
    and "RECIPROCAL K s = Inr r"
    and "0 \<le> j" and "j < int n" and "length row = Suc n"
  shows "forney_step K n Z0 sp (beta, j) row =
     Inr (row[nat (int n - 1 - j) :=
            SUBTRACT K (row ! nat (int n - 1 - j)) (MULTIPLY K (SUBTRACT K 0 z) r)])"
  using assms by (simp add: forney_step_def py_index_def Let_def)

text \<open>
  The error value of the specification (section 4.2) for a root \<open>beta\<close> of the reversed
  locator: \<open>delta = -Z0(1/beta) / sigma'(1/beta)\<close>, the negative being \<open>0 - z\<close> and the
  quotient the product with the reciprocal. It is undefined where a reciprocal or an
  evaluation raises.
\<close>

definition error_value :: "kernels \<Rightarrow> int list \<Rightarrow> int list \<Rightarrow> int \<Rightarrow> int result" where
  "error_value K Z0 sigma_prime beta =
     rbind (RECIPROCAL K beta) (\<lambda>beta_inv.
     rbind (POLY_EVAL K Z0 beta_inv) (\<lambda>z.
     rbind (POLY_EVAL K sigma_prime beta_inv) (\<lambda>s.
     rbind (RECIPROCAL K s) (\<lambda>r.
       Inr (MULTIPLY K (SUBTRACT K 0 z) r)))))"

text \<open>
  What the specification asks of the corrected word: for each error, given by its
  location \<open>j\<close> and its value \<open>delta\<close>, \<open>delta\<close> is subtracted from the symbol at position
  \<open>n - 1 - j\<close>.
\<close>

fun subtract_errors :: "kernels \<Rightarrow> nat \<Rightarrow> (int \<times> int) list \<Rightarrow> int list \<Rightarrow> int list" where
  "subtract_errors K n [] row = row"
| "subtract_errors K n ((j, delta) # es) row =
     subtract_errors K n es
       (row[nat (int n - 1 - j) := SUBTRACT K (row ! nat (int n - 1 - j)) delta])"

text \<open>
  GF(5) with the locator of a word with two errors: \<open>[1, 0, 2, 0]\<close> is the zero codeword
  with the errors 1 at position 0 and 2 at position 2, its four syndromes for the roots
  \<open>2, 4, 3, 1\<close> are \<open>[2, 2, 3, 3]\<close>, and its locator is
  \<open>(1 - 3 x) (1 - 2 x) = x^2 + 1\<close>, which is its own reversal.
\<close>

definition gf5_two_errors :: kernels where
  "gf5_two_errors =
     gf5\<lparr>BERLEKAMP_MASSEY :=
           (\<lambda>syn. if syn = [2, 2, 3, 3] \<or> syn = [3, 3, 2, 2] then Inr [1, 0, 1]
                   else Inl ValueError)\<rparr>"

lemma forney_step_error_value:
  assumes e: "error_value K Z0 sp beta = Inr delta"
    and j: "0 \<le> j" "j < int n" and l: "length row = Suc n"
  shows "forney_step K n Z0 sp (beta, j) row =
     Inr (row[nat (int n - 1 - j) := SUBTRACT K (row ! nat (int n - 1 - j)) delta])"
proof -
  from e obtain beta_inv where b: "RECIPROCAL K beta = Inr beta_inv"
    and e1: "rbind (POLY_EVAL K Z0 beta_inv) (\<lambda>z.
       rbind (POLY_EVAL K sp beta_inv) (\<lambda>s.
       rbind (RECIPROCAL K s) (\<lambda>r. Inr (MULTIPLY K (SUBTRACT K 0 z) r)))) = Inr delta"
    unfolding error_value_def rbind_eq_Inr [of "RECIPROCAL K beta"] by (elim exE conjE)
  from e1 obtain z where z: "POLY_EVAL K Z0 beta_inv = Inr z"
    and e2: "rbind (POLY_EVAL K sp beta_inv) (\<lambda>s.
       rbind (RECIPROCAL K s) (\<lambda>r. Inr (MULTIPLY K (SUBTRACT K 0 z) r))) = Inr delta"
    unfolding rbind_eq_Inr [of "POLY_EVAL K Z0 beta_inv"] by (elim exE conjE)
  from e2 obtain s where s: "POLY_EVAL K sp beta_inv = Inr s"
    and e3: "rbind (RECIPROCAL K s) (\<lambda>r. Inr (MULTIPLY K (SUBTRACT K 0 z) r)) = Inr delta"
    unfolding rbind_eq_Inr [of "POLY_EVAL K sp beta_inv"] by (elim exE conjE)
  from e3 obtain r where r: "RECIPROCAL K s = Inr r"
    and d: "(Inr (MULTIPLY K (SUBTRACT K 0 z) r) :: int result) = Inr delta"
    unfolding rbind_eq_Inr [of "RECIPROCAL K s"] by (elim exE conjE)
  from d have "delta = MULTIPLY K (SUBTRACT K 0 z) r" by simp
  with forney_step_value [OF b z s r j l] show ?thesis by simp
qed

lemma length_subtract_errors [simp]:
  "length (subtract_errors K n es row) = length row"
  by (induction K n es row rule: subtract_errors.induct) simp_all

lemma forney_loop_subtracts:
  "length deltas = length results \<Longrightarrow>
   \<forall>i<length results. error_value K Z0 sp (fst (results ! i)) = Inr (deltas ! i) \<and>
      0 \<le> snd (results ! i) \<and> snd (results ! i) < int n \<Longrightarrow>
   length row = Suc n \<Longrightarrow>
   forney_loop K n Z0 sp results row =
     Inr (subtract_errors K n (zip (map snd results) deltas) row)"
proof (induction results arbitrary: deltas row)
  case Nil
  then show ?case by simp
next
  case (Cons bl results)
  obtain beta j where bl: "bl = (beta, j)" by (cases bl)
  from Cons.prems(1) obtain d ds where ds: "deltas = d # ds" and l: "length ds = length results"
    by (cases deltas) simp_all
  from Cons.prems(2) [rule_format, of 0] bl ds
  have e: "error_value K Z0 sp beta = Inr d" and j: "0 \<le> j" "j < int n" by simp_all
  have r: "\<forall>i<length results. error_value K Z0 sp (fst (results ! i)) = Inr (ds ! i) \<and>
      0 \<le> snd (results ! i) \<and> snd (results ! i) < int n"
  proof (intro allI impI)
    fix i assume "i < length results"
    then have "Suc i < length (bl # results)" by simp
    from Cons.prems(2) [rule_format, OF this] ds
    show "error_value K Z0 sp (fst (results ! i)) = Inr (ds ! i) \<and>
      0 \<le> snd (results ! i) \<and> snd (results ! i) < int n" by simp
  qed
  let ?row1 = "row[nat (int n - 1 - j) := SUBTRACT K (row ! nat (int n - 1 - j)) d]"
  have l1: "length ?row1 = Suc n" using Cons.prems(3) by simp
  note st = forney_step_error_value [OF e j Cons.prems(3)]
  from Cons.IH [OF l r l1] st show ?case unfolding bl ds by simp
qed

lemma subtract_errors_elsewhere:
  "\<forall>e\<in>set es. nat (int n - 1 - fst e) \<noteq> p \<Longrightarrow> subtract_errors K n es row ! p = row ! p"
proof (induction es arbitrary: row)
  case Nil
  then show ?case by simp
next
  case (Cons e es)
  obtain j d where e: "e = (j, d)" by (cases e)
  from Cons.prems e have ne: "nat (int n - 1 - j) \<noteq> p"
    and r: "\<forall>e\<in>set es. nat (int n - 1 - fst e) \<noteq> p" by simp_all
  from Cons.IH [OF r] ne show ?case unfolding e by simp
qed

lemma subtract_errors_at:
  "distinct (map (\<lambda>e. nat (int n - 1 - fst e)) es) \<Longrightarrow> i < length es \<Longrightarrow>
   nat (int n - 1 - fst (es ! i)) < length row \<Longrightarrow>
   subtract_errors K n es row ! nat (int n - 1 - fst (es ! i)) =
     SUBTRACT K (row ! nat (int n - 1 - fst (es ! i))) (snd (es ! i))"
proof (induction es arbitrary: row i)
  case Nil
  then show ?case by simp
next
  case (Cons e es)
  obtain j d where e: "e = (j, d)" by (cases e)
  let ?p = "nat (int n - 1 - j)"
  let ?row1 = "row[?p := SUBTRACT K (row ! ?p) d]"
  from Cons.prems(1) e have np: "?p \<notin> (\<lambda>e. nat (int n - 1 - fst e)) ` set es"
    and di: "distinct (map (\<lambda>e. nat (int n - 1 - fst e)) es)" by simp_all
  show ?case
  proof (cases i)
    case 0
    from np have "\<forall>e\<in>set es. nat (int n - 1 - fst e) \<noteq> ?p" by (auto simp: image_iff)
    from subtract_errors_elsewhere [OF this] have
      "subtract_errors K n es ?row1 ! ?p = ?row1 ! ?p" .
    with 0 Cons.prems(3) e show ?thesis by simp
  next
    case (Suc i')
    with Cons.prems(2) have i': "i' < length es" by simp
    then have "es ! i' \<in> set es" by simp
    with np have ne: "nat (int n - 1 - fst (es ! i')) \<noteq> ?p" by (auto simp: image_iff)
    from Cons.prems(3) Suc have lt: "nat (int n - 1 - fst (es ! i')) < length ?row1" by simp
    from Cons.IH [OF di i' lt] ne Suc show ?thesis unfolding e by simp
  qed
qed


lemma decode_row_subtracts:
  assumes nz: "\<not> all_zero syn"
    and bm: "BERLEKAMP_MASSEY K syn = Inr sigma"
    and bmr: "BERLEKAMP_MASSEY K (rev syn) = Inr sigma_rev"
    and ls: "length sigma = Suc v" and vt: "int v \<le> t"
    and pr: "POLY_ROOTS K (map int (rev [0..<length sigma_rev])) sigma_rev pe = Inr results"
    and lr: "length results = v"
    and ch: "CHARACTERISTIC K \<noteq> 0" and m0: "\<forall>a. MULTIPLY K 0 a = 0"
    and cv: "CONVOLVE K (last_slice v sigma) (rev (take v syn)) = Inr conv"
    and ld: "length deltas = v"
    and ev: "\<forall>i<v. error_value K (last_slice v conv)
                 (formal_derivative (CHARACTERISTIC K) (MULTIPLY K) sigma)
                 (fst (results ! i)) = Inr (deltas ! i) \<and>
               0 \<le> snd (results ! i) \<and> snd (results ! i) < int (length cw)"
  shows "decode_row K t pe cw syn =
       Inr ((subtract_errors K (length cw) (zip (map snd results) deltas) (cw @ [0]))
              [length cw := int v])"
    and "distinct (map snd results) \<Longrightarrow> i < v \<Longrightarrow>
       (subtract_errors K (length cw) (zip (map snd results) deltas) (cw @ [0]))
              [length cw := int v] ! nat (int (length cw) - 1 - snd (results ! i)) =
         SUBTRACT K (cw ! nat (int (length cw) - 1 - snd (results ! i))) (deltas ! i)"
    and "p < length cw \<Longrightarrow> \<forall>i<v. p \<noteq> nat (int (length cw) - 1 - snd (results ! i)) \<Longrightarrow>
       (subtract_errors K (length cw) (zip (map snd results) deltas) (cw @ [0]))
              [length cw := int v] ! p = cw ! p"
proof -
  let ?n = "length cw"
  let ?es = "zip (map snd results) deltas"
  let ?S = "subtract_errors K ?n ?es (cw @ [0])"
  have d: "sigma_prime_of K v sigma =
      formal_derivative (CHARACTERISTIC K) (MULTIPLY K) sigma"
    by (rule sigma_prime_is_formal_derivative [OF m0 ls])
  have l0: "length (cw @ [0]) = Suc ?n" by simp
  from ld lr have ld': "length deltas = length results" by simp
  from ev lr have ev': "\<forall>i<length results. error_value K (last_slice v conv)
                 (formal_derivative (CHARACTERISTIC K) (MULTIPLY K) sigma)
                 (fst (results ! i)) = Inr (deltas ! i) \<and>
               0 \<le> snd (results ! i) \<and> snd (results ! i) < int ?n" by simp
  note lp = forney_loop_subtracts [OF ld' ev' l0]
  from decode_row_correctable [OF nz bm bmr ls vt pr lr ch, of cw]
  show "decode_row K t pe cw syn = Inr (?S[?n := int v])"
    unfolding d cv rbind_Inr lp .
  have les: "length ?es = v" using ld lr by simp
  have fe: "fst (?es ! i) = snd (results ! i)" "snd (?es ! i) = deltas ! i" if "i < v" for i
    using that ld lr by simp_all
  have rng: "0 \<le> snd (results ! i) \<and> snd (results ! i) < int ?n" if "i < v" for i
    using ev [rule_format, OF that] by simp
  {
    assume di: "distinct (map snd results)" and i: "i < v"
    have me: "map (\<lambda>e. nat (int ?n - 1 - fst e)) ?es =
        map (\<lambda>j. nat (int ?n - 1 - j)) (map snd results)"
    proof (rule nth_equalityI)
      show "length (map (\<lambda>e. nat (int ?n - 1 - fst e)) ?es) =
          length (map (\<lambda>j. nat (int ?n - 1 - j)) (map snd results))"
        using les lr by simp
    next
      fix k assume "k < length (map (\<lambda>e. nat (int ?n - 1 - fst e)) ?es)"
      then have k: "k < v" using ld lr by simp
      with fe(1) [OF k] les lr
      show "map (\<lambda>e. nat (int ?n - 1 - fst e)) ?es ! k =
          map (\<lambda>j. nat (int ?n - 1 - j)) (map snd results) ! k" by simp
    qed
    have inj: "inj_on (\<lambda>j. nat (int ?n - 1 - j)) (set (map snd results))"
    proof (rule inj_onI)
      fix a b assume a: "a \<in> set (map snd results)" and b: "b \<in> set (map snd results)"
        and e: "nat (int ?n - 1 - a) = nat (int ?n - 1 - b)"
      from a obtain ia where "ia < length results" "a = snd (results ! ia)"
        by (auto simp: in_set_conv_nth)
      with rng [of ia] lr have ra: "0 \<le> a \<and> a < int ?n" by simp
      from b obtain ib where "ib < length results" "b = snd (results ! ib)"
        by (auto simp: in_set_conv_nth)
      with rng [of ib] lr have rb: "0 \<le> b \<and> b < int ?n" by simp
      from ra rb e show "a = b" by linarith
    qed
    have dp: "distinct (map (\<lambda>e. nat (int ?n - 1 - fst e)) ?es)"
      unfolding me by (rule distinct_map [THEN iffD2]) (rule conjI [OF di inj])
    from i les have i': "i < length ?es" by simp
    from rng [OF i] have pl: "nat (int ?n - 1 - snd (results ! i)) < ?n" by linarith
    then have lt: "nat (int ?n - 1 - fst (?es ! i)) < length (cw @ [0])"
      using fe(1) [OF i] by simp
    from subtract_errors_at [OF dp i' lt, of K]
    have "?S ! nat (int ?n - 1 - snd (results ! i)) =
        SUBTRACT K ((cw @ [0]) ! nat (int ?n - 1 - snd (results ! i))) (deltas ! i)"
      unfolding fe(1) [OF i] fe(2) [OF i] .
    with pl show "?S[?n := int v] ! nat (int ?n - 1 - snd (results ! i)) =
         SUBTRACT K (cw ! nat (int ?n - 1 - snd (results ! i))) (deltas ! i)"
      by (simp add: nth_append)
  }
  {
    assume p: "p < ?n" and np: "\<forall>i<v. p \<noteq> nat (int ?n - 1 - snd (results ! i))"
    have "\<forall>e\<in>set ?es. nat (int ?n - 1 - fst e) \<noteq> p"
    proof
      fix e assume "e \<in> set ?es"
      then obtain k where k: "k < length ?es" and e: "e = ?es ! k"
        by (auto simp: in_set_conv_nth)
      from k ld lr have kv: "k < v" by simp
      from np [rule_format, OF kv] fe(1) [OF kv] e
      show "nat (int ?n - 1 - fst e) \<noteq> p" by simp
    qed
    from subtract_errors_elsewhere [OF this, of K "cw @ [0]"] p
    show "?S[?n := int v] ! p = cw ! p" by (simp add: nth_append)
  }
qed


text \<open>
  C5. For a correctable codeword (non-zero syndrome, \<open>v = sigma.size - 1 \<le> t\<close> and
  \<open>v\<close> roots found), in a field where multiplying by 0 gives 0: the array
  \<open>sigma_prime\<close> that the decoder builds is the formal derivative of \<open>sigma\<close> with the
  degrees reduced modulo the characteristic; the decoded row is the received word after
  the Forney loop over the roots, with the count \<open>v\<close>; each pass of the loop, for a
  root \<open>beta\<close> of \<open>sigma_rev\<close> with error location \<open>j\<close>, subtracts
  \<open>delta = (0 - Z0(1/beta)) * (1 / sigma'(1/beta))\<close> from the symbol at position
  \<open>n - 1 - j\<close> and changes nothing else. Over the whole loop, for any number \<open>v\<close> of
  roots: when the error value \<open>deltas[i]\<close> of every root is defined and every location is
  in \<open>0, ..., n - 1\<close>, the decoder returns the received word with every \<open>deltas[i]\<close>
  subtracted at position \<open>n - 1 - j\<^sub>i\<close>, in the order of the roots, and the count \<open>v\<close>;
  the locations being distinct, the symbol at position \<open>n - 1 - j\<^sub>i\<close> of the result is the
  received symbol minus \<open>deltas[i]\<close>, for every \<open>i\<close>, and every other symbol is the
  received one.
\<close>

theorem forney_error_values:
  "((\<forall>a. MULTIPLY K 0 a = 0) \<and> length sigma = Suc v \<longrightarrow>
      sigma_prime_of K v sigma = formal_derivative (CHARACTERISTIC K) (MULTIPLY K) sigma) \<and>
   (\<not> all_zero syn \<and> BERLEKAMP_MASSEY K syn = Inr sigma \<and>
    BERLEKAMP_MASSEY K (rev syn) = Inr sigma_rev \<and> length sigma = Suc v \<and> int v \<le> t \<and>
    POLY_ROOTS K (map int (rev [0..<length sigma_rev])) sigma_rev pe = Inr results \<and>
    length results = v \<and> CHARACTERISTIC K \<noteq> 0 \<and> (\<forall>a. MULTIPLY K 0 a = 0) \<longrightarrow>
      decode_row K t pe cw syn =
        rbind (CONVOLVE K (last_slice v sigma) (rev (take v syn))) (\<lambda>conv.
        rbind (forney_loop K (length cw) (last_slice v conv)
                 (formal_derivative (CHARACTERISTIC K) (MULTIPLY K) sigma) results (cw @ [0]))
          (\<lambda>row'. Inr (row'[length cw := int v])))) \<and>
   (RECIPROCAL K beta = Inr beta_inv \<and> POLY_EVAL K Z0 beta_inv = Inr z \<and>
    POLY_EVAL K sp beta_inv = Inr s \<and> RECIPROCAL K s = Inr r \<and>
    0 \<le> j \<and> j < int n \<and> length row = Suc n \<longrightarrow>
      forney_step K n Z0 sp (beta, j) row =
        Inr (row[nat (int n - 1 - j) :=
               SUBTRACT K (row ! nat (int n - 1 - j)) (MULTIPLY K (SUBTRACT K 0 z) r)])) \<and>
   (\<not> all_zero syn \<and> BERLEKAMP_MASSEY K syn = Inr sigma \<and>
    BERLEKAMP_MASSEY K (rev syn) = Inr sigma_rev \<and> length sigma = Suc v \<and> int v \<le> t \<and>
    POLY_ROOTS K (map int (rev [0..<length sigma_rev])) sigma_rev pe = Inr results \<and>
    length results = v \<and> CHARACTERISTIC K \<noteq> 0 \<and> (\<forall>a. MULTIPLY K 0 a = 0) \<and>
    CONVOLVE K (last_slice v sigma) (rev (take v syn)) = Inr conv \<and>
    length deltas = v \<and>
    (\<forall>i<v. error_value K (last_slice v conv)
               (formal_derivative (CHARACTERISTIC K) (MULTIPLY K) sigma)
               (fst (results ! i)) = Inr (deltas ! i) \<and>
            0 \<le> snd (results ! i) \<and> snd (results ! i) < int (length cw)) \<longrightarrow>
      (\<exists>dec. decode_row K t pe cw syn = Inr dec \<and>
         dec = (subtract_errors K (length cw) (zip (map snd results) deltas) (cw @ [0]))
                 [length cw := int v] \<and>
         length dec = Suc (length cw) \<and> dec ! length cw = int v \<and>
         (distinct (map snd results) \<longrightarrow>
            (\<forall>i<v. dec ! nat (int (length cw) - 1 - snd (results ! i)) =
               SUBTRACT K (cw ! nat (int (length cw) - 1 - snd (results ! i))) (deltas ! i))) \<and>
         (\<forall>p<length cw. (\<forall>i<v. p \<noteq> nat (int (length cw) - 1 - snd (results ! i))) \<longrightarrow>
            dec ! p = cw ! p)))"
proof (intro conjI impI)
  assume "(\<forall>a. MULTIPLY K 0 a = 0) \<and> length sigma = Suc v"
  then show "sigma_prime_of K v sigma =
      formal_derivative (CHARACTERISTIC K) (MULTIPLY K) sigma"
    using sigma_prime_is_formal_derivative by blast
next
  assume a: "\<not> all_zero syn \<and> BERLEKAMP_MASSEY K syn = Inr sigma \<and>
    BERLEKAMP_MASSEY K (rev syn) = Inr sigma_rev \<and> length sigma = Suc v \<and> int v \<le> t \<and>
    POLY_ROOTS K (map int (rev [0..<length sigma_rev])) sigma_rev pe = Inr results \<and>
    length results = v \<and> CHARACTERISTIC K \<noteq> 0 \<and> (\<forall>a. MULTIPLY K 0 a = 0)"
  then have d: "sigma_prime_of K v sigma =
      formal_derivative (CHARACTERISTIC K) (MULTIPLY K) sigma"
    using sigma_prime_is_formal_derivative by blast
  from a have "decode_row K t pe cw syn =
     rbind (CONVOLVE K (last_slice v sigma) (rev (take v syn))) (\<lambda>conv.
     rbind (forney_loop K (length cw) (last_slice v conv) (sigma_prime_of K v sigma) results
              (cw @ [0])) (\<lambda>row'. Inr (row'[length cw := int v])))"
    using decode_row_correctable by blast
  with d show "decode_row K t pe cw syn =
        rbind (CONVOLVE K (last_slice v sigma) (rev (take v syn))) (\<lambda>conv.
        rbind (forney_loop K (length cw) (last_slice v conv)
                 (formal_derivative (CHARACTERISTIC K) (MULTIPLY K) sigma) results (cw @ [0]))
          (\<lambda>row'. Inr (row'[length cw := int v])))"
    by simp
next
  assume "RECIPROCAL K beta = Inr beta_inv \<and> POLY_EVAL K Z0 beta_inv = Inr z \<and>
    POLY_EVAL K sp beta_inv = Inr s \<and> RECIPROCAL K s = Inr r \<and>
    0 \<le> j \<and> j < int n \<and> length row = Suc n"
  then show "forney_step K n Z0 sp (beta, j) row =
        Inr (row[nat (int n - 1 - j) :=
               SUBTRACT K (row ! nat (int n - 1 - j)) (MULTIPLY K (SUBTRACT K 0 z) r)])"
    using forney_step_value by blast
next
  let ?dec = "(subtract_errors K (length cw) (zip (map snd results) deltas) (cw @ [0]))
                 [length cw := int v]"
  assume a: "\<not> all_zero syn \<and> BERLEKAMP_MASSEY K syn = Inr sigma \<and>
    BERLEKAMP_MASSEY K (rev syn) = Inr sigma_rev \<and> length sigma = Suc v \<and> int v \<le> t \<and>
    POLY_ROOTS K (map int (rev [0..<length sigma_rev])) sigma_rev pe = Inr results \<and>
    length results = v \<and> CHARACTERISTIC K \<noteq> 0 \<and> (\<forall>a. MULTIPLY K 0 a = 0) \<and>
    CONVOLVE K (last_slice v sigma) (rev (take v syn)) = Inr conv \<and>
    length deltas = v \<and>
    (\<forall>i<v. error_value K (last_slice v conv)
               (formal_derivative (CHARACTERISTIC K) (MULTIPLY K) sigma)
               (fst (results ! i)) = Inr (deltas ! i) \<and>
            0 \<le> snd (results ! i) \<and> snd (results ! i) < int (length cw))"
  then have nz: "\<not> all_zero syn" and bm: "BERLEKAMP_MASSEY K syn = Inr sigma"
    and bmr: "BERLEKAMP_MASSEY K (rev syn) = Inr sigma_rev"
    and ls: "length sigma = Suc v" and vt: "int v \<le> t"
    and pr: "POLY_ROOTS K (map int (rev [0..<length sigma_rev])) sigma_rev pe = Inr results"
    and lr: "length results = v"
    and ch: "CHARACTERISTIC K \<noteq> 0" and m0: "\<forall>a. MULTIPLY K 0 a = 0"
    and cv: "CONVOLVE K (last_slice v sigma) (rev (take v syn)) = Inr conv"
    and ld: "length deltas = v"
    and ev: "\<forall>i<v. error_value K (last_slice v conv)
                 (formal_derivative (CHARACTERISTIC K) (MULTIPLY K) sigma)
                 (fst (results ! i)) = Inr (deltas ! i) \<and>
               0 \<le> snd (results ! i) \<and> snd (results ! i) < int (length cw)"
    by simp_all
  note s = decode_row_subtracts [OF nz bm bmr ls vt pr lr ch m0 cv ld ev]
  have 1: "decode_row K t pe cw syn = Inr ?dec" by (rule s(1))
  have 2: "length ?dec = Suc (length cw)" by simp
  have 3: "?dec ! length cw = int v" by simp
  have 4: "distinct (map snd results) \<longrightarrow>
            (\<forall>i<v. ?dec ! nat (int (length cw) - 1 - snd (results ! i)) =
               SUBTRACT K (cw ! nat (int (length cw) - 1 - snd (results ! i))) (deltas ! i))"
    by (intro impI allI) (rule s(2))
  have 5: "\<forall>p<length cw. (\<forall>i<v. p \<noteq> nat (int (length cw) - 1 - snd (results ! i))) \<longrightarrow>
            ?dec ! p = cw ! p"
    by (intro impI allI) (rule s(3))
  show "\<exists>dec. decode_row K t pe cw syn = Inr dec \<and>
         dec = ?dec \<and>
         length dec = Suc (length cw) \<and> dec ! length cw = int v \<and>
         (distinct (map snd results) \<longrightarrow>
            (\<forall>i<v. dec ! nat (int (length cw) - 1 - snd (results ! i)) =
               SUBTRACT K (cw ! nat (int (length cw) - 1 - snd (results ! i))) (deltas ! i))) \<and>
         (\<forall>p<length cw. (\<forall>i<v. p \<noteq> nat (int (length cw) - 1 - snd (results ! i))) \<longrightarrow>
            dec ! p = cw ! p)"
    by (rule exI [of _ ?dec]) (intro conjI refl 1 2 3 4 5)
qed


text \<open>
  Witness over GF(5). The codeword \<open>[1, 0, 2, 3]\<close> of RS(4, 2) is received as
  \<open>[2, 0, 2, 3]\<close>: syndrome \<open>[3, 4]\<close>, locator \<open>sigma = 2 x + 1\<close>, one root \<open>3 = 2^3\<close>
  of the reversed locator, \<open>sigma' = 2\<close>, \<open>Z0 = 3\<close>, \<open>delta = (0 - 3) / 2 = 1\<close>, which
  is subtracted at position \<open>4 - 1 - 3 = 0\<close>. The derivative of a locator of degree 5
  loses its leading coefficient, whose degree is divisible by 5. With \<open>t = 2\<close> the zero
  codeword is received as \<open>[1, 0, 2, 0]\<close>: two roots \<open>2 = 2^1\<close> and \<open>3 = 2^3\<close>,
  \<open>sigma' = 2 x\<close>, \<open>Z0 = 2 x + 2\<close>, the error values are 2 and 1, subtracted at the
  positions \<open>4 - 1 - 1 = 2\<close> and \<open>4 - 1 - 3 = 0\<close>; the positions 1 and 3 keep their
  symbols.
\<close>

theorem forney_error_values_witness:
  "sigma_prime_of gf5 1 [2, 1] = [2] \<and>
   formal_derivative 5 gf5_multiply [1, 3, 0, 2, 4, 1] = [0, 2, 0, 4, 4] \<and>
   sigma_prime_of gf5 5 [1, 3, 0, 2, 4, 1] = [0, 2, 0, 4, 4] \<and>
   forney_step gf5 4 [3] [2] (3, 3) [2, 0, 2, 3, 0] = Inr [1, 0, 2, 3, 0] \<and>
   decode_row gf5 1 2 [2, 0, 2, 3] [3, 4] = Inr [1, 0, 2, 3, 1] \<and>
   POLY_ROOTS gf5_two_errors (map int (rev [0..<length [1, 0, 1 :: int]])) [1, 0, 1] 2 =
     Inr [(2, 1), (3, 3)] \<and>
   error_value gf5_two_errors [2, 2] [2, 0] 2 = Inr 2 \<and>
   error_value gf5_two_errors [2, 2] [2, 0] 3 = Inr 1 \<and>
   decode_row gf5_two_errors 2 2 [1, 0, 2, 0] [2, 2, 3, 3] = Inr [0, 0, 0, 0, 2] \<and>
   [0, 0, 0, 0, 2] ! 2 = SUBTRACT gf5_two_errors ([1, 0, 2, 0] ! 2) 2 \<and>
   [0, 0, 0, 0, 2] ! 0 = SUBTRACT gf5_two_errors ([1, 0, 2, 0] ! 0) 1 \<and>
   [0, 0, 0, 0, 2 :: int] ! 1 = [1, 0, 2, 0] ! 1 \<and>
   [0, 0, 0, 0, 2 :: int] ! 3 = [1, 0, 2, 0] ! 3"
proof -
  have m: "\<forall>a. MULTIPLY gf5 0 a = 0" by (simp add: gf5_def gf5_multiply_def)
  have c: "CHARACTERISTIC gf5 = 5" "MULTIPLY gf5 = gf5_multiply" by (simp_all add: gf5_def)
  have f5: "formal_derivative 5 gf5_multiply [1, 3, 0, 2, 4, 1] = [0, 2, 0, 4, 4]"
    by (simp add: gf5_multiply_def)
  have f1: "formal_derivative 5 gf5_multiply [2, 1] = [2]"
    by (simp add: gf5_multiply_def)
  have a: "\<not> all_zero [3, 4]" by (simp add: all_zero_def)
  have b: "BERLEKAMP_MASSEY gf5 [3, 4] = Inr [2, 1]"
    "BERLEKAMP_MASSEY gf5 (rev [3, 4]) = Inr [1, 2]"
    by (simp_all add: gf5_def gf5_locator_def)
  have p: "POLY_ROOTS gf5 (map int (rev [0..<length [1, 2 :: int]])) [1, 2] 2 = Inr [(3, 3)]"
    by code_simp
  have cv: "CONVOLVE gf5 (last_slice 1 [2, 1]) (rev (take 1 [3, 4])) = Inr [3]"
    by code_simp
  have ls: "last_slice 1 [3 :: int] = [3]" by (simp add: last_slice_def)
  have rc: "RECIPROCAL gf5 3 = Inr 2" "RECIPROCAL gf5 2 = Inr 3"
    by (simp_all add: gf5_def gf5_reciprocal_def)
  have ev: "POLY_EVAL gf5 [3] 2 = Inr 3" "POLY_EVAL gf5 [2] 2 = Inr 2"
    by (simp_all add: gf5_def poly_evaluate_jit_def)
  have ar: "SUBTRACT gf5 2 (MULTIPLY gf5 (SUBTRACT gf5 0 3) 3) = 1"
    by (simp add: gf5_def gf5_subtract_def gf5_multiply_def)
  note t1 = forney_error_values
    [where K = gf5 and sigma = "[2, 1]" and v = 1 and syn = "[3, 4]" and sigma_rev = "[1, 2]"
       and t = 1 and pe = 2 and results = "[(3, 3)]" and cw = "[2, 0, 2, 3]" and beta = 3
       and beta_inv = 2 and ?Z0.0 = "[3]" and z = 3 and sp = "[2]" and s = 2 and r = 3
       and j = 3 and n = 4 and row = "[2, 0, 2, 3, 0]"]
  note t5 = forney_error_values [where K = gf5 and sigma = "[1, 3, 0, 2, 4, 1]" and v = 5]
  from t1 m c f1 have s1: "sigma_prime_of gf5 1 [2, 1] = [2]" by simp
  from t5 m c f5 have s5: "sigma_prime_of gf5 5 [1, 3, 0, 2, 4, 1] = [0, 2, 0, 4, 4]" by simp
  from t1 rc ev ar have st: "forney_step gf5 4 [3] [2] (3, 3) [2, 0, 2, 3, 0] = Inr [1, 0, 2, 3, 0]"
    by simp
  from t1 a b p m c have "decode_row gf5 1 2 [2, 0, 2, 3] [3, 4] =
        rbind (CONVOLVE gf5 (last_slice 1 [2, 1]) (rev (take 1 [3, 4]))) (\<lambda>conv.
        rbind (forney_loop gf5 (length [2, 0, 2, 3 :: int]) (last_slice 1 conv)
                 (formal_derivative 5 gf5_multiply [2, 1]) [(3, 3)] ([2, 0, 2, 3] @ [0]))
          (\<lambda>row'. Inr (row'[length [2, 0, 2, 3 :: int] := int 1])))"
    by simp
  with cv ls f1 st have dr: "decode_row gf5 1 2 [2, 0, 2, 3] [3, 4] = Inr [1, 0, 2, 3, 1]"
    by (simp add: eval_nat_numeral)
  have a1: "\<not> all_zero [2, 2, 3, 3]" by (simp add: all_zero_def)
  have a2: "BERLEKAMP_MASSEY gf5_two_errors [2, 2, 3, 3] = Inr [1, 0, 1]"
    by (simp add: gf5_two_errors_def)
  have a3: "BERLEKAMP_MASSEY gf5_two_errors (rev [2, 2, 3, 3]) = Inr [1, 0, 1]"
    by (simp add: gf5_two_errors_def)
  have a4: "length [1, 0, 1 :: int] = Suc 2" by simp
  have a5: "int 2 \<le> 2" by simp
  have a6: "POLY_ROOTS gf5_two_errors (map int (rev [0..<length [1, 0, 1 :: int]])) [1, 0, 1] 2 =
     Inr [(2, 1), (3, 3)]" by code_simp
  have a7: "length [(2 :: int, 1 :: int), (3, 3)] = 2" by simp
  have a8: "CHARACTERISTIC gf5_two_errors \<noteq> 0" by (simp add: gf5_two_errors_def gf5_def)
  have a9: "\<forall>a. MULTIPLY gf5_two_errors 0 a = 0"
    by (simp add: gf5_two_errors_def gf5_def gf5_multiply_def)
  have a10: "CONVOLVE gf5_two_errors (last_slice 2 [1, 0, 1]) (rev (take 2 [2, 2, 3, 3])) =
     Inr [0, 2, 2]" by code_simp
  have a11: "length [2, 1 :: int] = 2" by simp
  have z0: "last_slice 2 [0, 2, 2 :: int] = [2, 2]" by code_simp
  have sp: "formal_derivative (CHARACTERISTIC gf5_two_errors) (MULTIPLY gf5_two_errors)
      [1, 0, 1] = [2, 0]" by code_simp
  have e0: "error_value gf5_two_errors [2, 2] [2, 0] 2 = Inr 2" by code_simp
  have e1: "error_value gf5_two_errors [2, 2] [2, 0] 3 = Inr 1" by code_simp
  have a12: "\<forall>i<2. error_value gf5_two_errors (last_slice 2 [0, 2, 2])
               (formal_derivative (CHARACTERISTIC gf5_two_errors) (MULTIPLY gf5_two_errors)
                  [1, 0, 1])
               (fst ([(2 :: int, 1 :: int), (3, 3)] ! i)) = Inr ([2, 1] ! i) \<and>
            0 \<le> snd ([(2 :: int, 1 :: int), (3, 3)] ! i) \<and>
            snd ([(2 :: int, 1 :: int), (3, 3)] ! i) < int (length [1, 0, 2, 0 :: int])"
  proof (intro allI impI)
    fix i :: nat assume "i < 2"
    then consider "i = 0" | "i = 1" by linarith
    then show "error_value gf5_two_errors (last_slice 2 [0, 2, 2])
               (formal_derivative (CHARACTERISTIC gf5_two_errors) (MULTIPLY gf5_two_errors)
                  [1, 0, 1])
               (fst ([(2 :: int, 1 :: int), (3, 3)] ! i)) = Inr ([2, 1] ! i) \<and>
            0 \<le> snd ([(2 :: int, 1 :: int), (3, 3)] ! i) \<and>
            snd ([(2 :: int, 1 :: int), (3, 3)] ! i) < int (length [1, 0, 2, 0 :: int])"
    proof cases
      case 1
      show ?thesis unfolding 1 z0 sp using e0 by simp
    next
      case 2
      show ?thesis unfolding 2 z0 sp using e1 by simp
    qed
  qed
  note t2 = forney_error_values
    [where K = gf5_two_errors and sigma = "[1, 0, 1]" and v = 2 and syn = "[2, 2, 3, 3]"
       and sigma_rev = "[1, 0, 1]" and t = 2 and pe = 2 and results = "[(2, 1), (3, 3)]"
       and cw = "[1, 0, 2, 0]" and conv = "[0, 2, 2]" and deltas = "[2, 1]",
     THEN conjunct2, THEN conjunct2, THEN conjunct2, THEN mp,
     OF conjI [OF a1 conjI [OF a2 conjI [OF a3 conjI [OF a4 conjI [OF a5 conjI [OF a6
          conjI [OF a7 conjI [OF a8 conjI [OF a9 conjI [OF a10 conjI [OF a11 a12]]]]]]]]]]]]
  have sv: "(subtract_errors gf5_two_errors (length [1, 0, 2, 0 :: int])
        (zip (map snd [(2 :: int, 1 :: int), (3, 3)]) [2, 1]) ([1, 0, 2, 0] @ [0]))
          [length [1, 0, 2, 0 :: int] := int 2] = [0, 0, 0, 0, 2]" by code_simp
  have di: "distinct (map snd [(2 :: int, 1 :: int), (3, 3)])" by simp
  from t2 obtain dec where d1: "decode_row gf5_two_errors 2 2 [1, 0, 2, 0] [2, 2, 3, 3] = Inr dec"
    and d2: "dec = (subtract_errors gf5_two_errors (length [1, 0, 2, 0 :: int])
        (zip (map snd [(2 :: int, 1 :: int), (3, 3)]) [2, 1]) ([1, 0, 2, 0] @ [0]))
          [length [1, 0, 2, 0 :: int] := int 2]"
    and d3: "distinct (map snd [(2 :: int, 1 :: int), (3, 3)]) \<longrightarrow>
            (\<forall>i<2. dec ! nat (int (length [1, 0, 2, 0 :: int]) - 1 -
                                 snd ([(2 :: int, 1 :: int), (3, 3)] ! i)) =
               SUBTRACT gf5_two_errors
                 ([1, 0, 2, 0] ! nat (int (length [1, 0, 2, 0 :: int]) - 1 -
                                 snd ([(2 :: int, 1 :: int), (3, 3)] ! i))) ([2, 1] ! i))"
    and d4: "\<forall>p<length [1, 0, 2, 0 :: int].
        (\<forall>i<2. p \<noteq> nat (int (length [1, 0, 2, 0 :: int]) - 1 -
                        snd ([(2 :: int, 1 :: int), (3, 3)] ! i))) \<longrightarrow>
            dec ! p = [1, 0, 2, 0] ! p"
    by (elim exE conjE)
  from d2 sv have dv: "dec = [0, 0, 0, 0, 2]" by simp
  from d1 dv have dr2: "decode_row gf5_two_errors 2 2 [1, 0, 2, 0] [2, 2, 3, 3] =
      Inr [0, 0, 0, 0, 2]" by simp
  from d3 [THEN mp, OF di, rule_format, of 0]
  have q0: "[0, 0, 0, 0, 2] ! 2 = SUBTRACT gf5_two_errors ([1, 0, 2, 0] ! 2) 2"
    unfolding dv by simp
  from d3 [THEN mp, OF di, rule_format, of 1]
  have q1: "[0, 0, 0, 0, 2] ! 0 = SUBTRACT gf5_two_errors ([1, 0, 2, 0] ! 0) 1"
    unfolding dv by simp
  have n1: "\<forall>i<2. (1::nat) \<noteq> nat (int (length [1, 0, 2, 0 :: int]) - 1 -
                        snd ([(2 :: int, 1 :: int), (3, 3)] ! i))"
    by (simp add: less_2_cases_iff)
  have n3: "\<forall>i<2. (3::nat) \<noteq> nat (int (length [1, 0, 2, 0 :: int]) - 1 -
                        snd ([(2 :: int, 1 :: int), (3, 3)] ! i))"
    by (simp add: less_2_cases_iff)
  from d4 [THEN spec [where x = "1 :: nat"], THEN mp, THEN mp, OF _ n1]
  have q2: "[0, 0, 0, 0, 2 :: int] ! 1 = [1, 0, 2, 0] ! 1" unfolding dv by simp
  from d4 [THEN spec [where x = "3 :: nat"], THEN mp, THEN mp, OF _ n3]
  have q3: "[0, 0, 0, 0, 2 :: int] ! 3 = [1, 0, 2, 0] ! 3" unfolding dv by simp
  from s1 f5 s5 st dr a6 e0 e1 dr2 q0 q1 q2 q3 show ?thesis by (intro conjI)
qed

section \<open>Polynomial division (src/galois/meta\_mixin\_jit.py)\<close>

text \<open>
  \<open>_poly_divmod_jit\<close>: \<open>qr\<close> starts as a copy of \<open>a\<close>; for \<open>i\<close> from 0 to
  \<open>a.size - b.size\<close>, when \<open>qr[i] > 0\<close> the quotient digit
  \<open>q = DIVIDE_JIT(qr[i], b[0])\<close> is taken, \<open>q * b\<close> is subtracted from
  \<open>qr[i], ..., qr[i + b.size - 1]\<close> and \<open>qr[i]\<close> becomes \<open>q\<close>. The three arithmetic
  globals are parameters. The assertion \<open>a.size >= b.size\<close> raises when it fails; a
  read outside an array is modelled as \<open>IndexError\<close>. \<open>_poly_divmod\<close> splits the
  result into quotient and remainder; its Python path does the same steps on field
  arrays.
\<close>

fun poly_divmod_loop ::
  "(int \<Rightarrow> int \<Rightarrow> int) \<Rightarrow> (int \<Rightarrow> int \<Rightarrow> int) \<Rightarrow> (int \<Rightarrow> int \<Rightarrow> int result) \<Rightarrow> int list
     \<Rightarrow> nat list \<Rightarrow> int list \<Rightarrow> int list result" where
  "poly_divmod_loop sb ml dv b [] qr = Inr qr"
| "poly_divmod_loop sb ml dv b (i # is) qr =
     (if i \<ge> length qr then Inl IndexError
      else if qr ! i > 0 then
        (case b of
           [] \<Rightarrow> Inl IndexError
         | b0 # bs \<Rightarrow>
             rbind (dv (qr ! i) b0) (\<lambda>q.
               poly_divmod_loop sb ml dv b is
                 ((fold (\<lambda>j qr. qr[i + j := sb (qr ! (i + j)) (ml q (b ! j))])
                     [0..<length b] qr)[i := q])))
      else poly_divmod_loop sb ml dv b is qr)"

definition poly_divmod_jit ::
  "(int \<Rightarrow> int \<Rightarrow> int) \<Rightarrow> (int \<Rightarrow> int \<Rightarrow> int) \<Rightarrow> (int \<Rightarrow> int \<Rightarrow> int result) \<Rightarrow> int list
     \<Rightarrow> int list \<Rightarrow> int list result" where
  "poly_divmod_jit sb ml dv a b =
     (if \<not> length a \<ge> length b then Inl AssertionError
      else poly_divmod_loop sb ml dv b [0..<Suc (length a - length b)] a)"

definition poly_divmod :: "field_class \<Rightarrow> int list \<Rightarrow> int list \<Rightarrow> (int list \<times> int list) result" where
  "poly_divmod F a b =
     rbind (poly_divmod_jit (SUBTRACT (kern F)) (MULTIPLY (kern F)) (DIVIDE F) a b) (\<lambda>qr.
       let q_degree = length a - length b in
       Inr (take (Suc q_degree) qr, take (length b) (drop (Suc q_degree) qr)))"

fun poly_divmod_each :: "field_class \<Rightarrow> int list list \<Rightarrow> int list \<Rightarrow> (int list list \<times> int list list) result" where
  "poly_divmod_each F [] b = Inr ([], [])"
| "poly_divmod_each F (a # as) b =
     rbind (poly_divmod F a b) (\<lambda>(q, r).
     rbind (poly_divmod_each F as b) (\<lambda>(qs, rs). Inr (q # qs, r # rs)))"

section \<open>Prime powers\<close>



section \<open>An environment for the concrete code\<close>








section \<open>Construction\<close>






section \<open>Field arithmetic read in a ring\<close>

text \<open>
  The kernels compute on integers that stand for field elements. \<open>represents K C \<phi>\<close>
  says what it means that they compute in a field: the integers of the set \<open>C\<close> are the
  field elements, \<open>0\<close> and \<open>1\<close> among them, and \<open>\<phi>\<close> reads each as an element of a
  commutative ring in which \<open>ADD\<close>, \<open>SUBTRACT\<close> and \<open>MULTIPLY\<close> are the sum, the difference
  and the product.
\<close>

definition represents :: "kernels \<Rightarrow> int set \<Rightarrow> (int \<Rightarrow> 'a::comm_ring_1) \<Rightarrow> bool" where
  "represents K C \<phi> \<longleftrightarrow>
     0 \<in> C \<and> 1 \<in> C \<and> \<phi> 0 = 0 \<and> \<phi> 1 = 1 \<and>
     (\<forall>a\<in>C. \<forall>b\<in>C. ADD K a b \<in> C \<and> \<phi> (ADD K a b) = \<phi> a + \<phi> b) \<and>
     (\<forall>a\<in>C. \<forall>b\<in>C. SUBTRACT K a b \<in> C \<and> \<phi> (SUBTRACT K a b) = \<phi> a - \<phi> b) \<and>
     (\<forall>a\<in>C. \<forall>b\<in>C. MULTIPLY K a b \<in> C \<and> \<phi> (MULTIPLY K a b) = \<phi> a * \<phi> b)"




section \<open>Convolution\<close>







section \<open>The generator polynomial\<close>


















section \<open>Exact matrix products\<close>

lemma int_dot_column:
  assumes "length row = length B"
  shows "int_dot row (column B j) = (\<Sum>k\<leftarrow>[0..<length B]. row ! k * (B ! k ! j))"
proof -
  have "map2 (*) row (column B j) = map (\<lambda>k. row ! k * (B ! k ! j)) [0..<length B]"
  proof (rule nth_equalityI)
    show "length (map2 (*) row (column B j)) = length (map (\<lambda>k. row ! k * (B ! k ! j)) [0..<length B])"
      using assms by (simp add: column_def)
  next
    fix k assume "k < length (map2 (*) row (column B j))"
    then have "k < length B" using assms by (simp add: column_def)
    then show "map2 (*) row (column B j) ! k = map (\<lambda>k. row ! k * (B ! k ! j)) [0..<length B] ! k"
      using assms by (simp add: column_def)
  qed
  then show ?thesis by (simp add: int_dot_def)
qed

lemma foldl_field_sum:
  fixes \<phi> :: "int \<Rightarrow> 'a::comm_ring_1"
  assumes add: "\<forall>a\<in>C. \<forall>b\<in>C. add a b \<in> C \<and> \<phi> (add a b) = \<phi> a + \<phi> b"
  shows "acc \<in> C \<Longrightarrow> \<forall>k\<in>set ks. t k \<in> C \<Longrightarrow>
     foldl (\<lambda>c k. add c (t k)) acc ks \<in> C \<and>
     \<phi> (foldl (\<lambda>c k. add c (t k)) acc ks) = \<phi> acc + (\<Sum>k\<leftarrow>ks. \<phi> (t k))"
proof (induction ks arbitrary: acc)
  case Nil
  then show ?case by simp
next
  case (Cons k ks)
  from Cons.prems have tk: "t k \<in> C" and r: "\<forall>k\<in>set ks. t k \<in> C" by simp_all
  from add Cons.prems(1) tk have a: "add acc (t k) \<in> C" "\<phi> (add acc (t k)) = \<phi> acc + \<phi> (t k)"
    by simp_all
  from Cons.IH [OF a(1) r] a(2) show ?case by (simp add: add.assoc)
qed

lemma field_sum_exact:
  fixes \<phi> :: "int \<Rightarrow> 'a::comm_ring_1"
  assumes add: "\<forall>a\<in>C. \<forall>b\<in>C. add a b \<in> C \<and> \<phi> (add a b) = \<phi> a + \<phi> b"
    and z: "0 \<in> C" "\<phi> 0 = 0" and xs: "set xs \<subseteq> C"
  shows "field_sum add xs \<in> C \<and> \<phi> (field_sum add xs) = (\<Sum>x\<leftarrow>xs. \<phi> x)"
proof (cases xs)
  case Nil
  with z show ?thesis by (simp add: field_sum_def)
next
  case (Cons x ys)
  with xs have x: "x \<in> C" and ys: "\<forall>k\<in>set ys. (\<lambda>y. y) k \<in> C" by auto
  from foldl_field_sum [OF add x ys] Cons show ?thesis by (simp add: field_sum_def)
qed

text \<open>
  One entry of a product over a field that is not a prime field, on the compiled path and
  on the Python path: it is the sum of the products \<open>row[k] B[k][j]\<close>.
\<close>

lemma row_matmul_exact:
  fixes \<phi> :: "int \<Rightarrow> 'a::comm_ring_1"
  assumes np: "\<not> is_prime_field F" and rep: "represents (kern F) C \<phi>"
    and row: "length row = length B" "set row \<subseteq> C"
    and B: "\<forall>r\<in>set B. length r = N \<and> set r \<subseteq> C"
    and j: "j < N"
  shows "row_matmul F row N B ! j \<in> C \<and>
     \<phi> (row_matmul F row N B ! j) = (\<Sum>k\<leftarrow>[0..<length B]. \<phi> (row ! k) * \<phi> (B ! k ! j))"
proof -
  from rep have add: "\<forall>a\<in>C. \<forall>b\<in>C. ADD (kern F) a b \<in> C \<and>
        \<phi> (ADD (kern F) a b) = \<phi> a + \<phi> b"
    and mul: "\<forall>a\<in>C. \<forall>b\<in>C. MULTIPLY (kern F) a b \<in> C \<and>
        \<phi> (MULTIPLY (kern F) a b) = \<phi> a * \<phi> b"
    and z: "0 \<in> C" "\<phi> 0 = 0"
    by (simp_all add: represents_def)
  let ?t = "\<lambda>k. MULTIPLY (kern F) (row ! k) (B ! k ! j)"
  have t: "?t k \<in> C \<and> \<phi> (?t k) = \<phi> (row ! k) * \<phi> (B ! k ! j)" if k: "k < length B" for k
  proof -
    from k row have rk: "row ! k \<in> C" using nth_mem [of k row] by auto
    from k have "B ! k \<in> set B" by simp
    with B have "length (B ! k) = N" "set (B ! k) \<subseteq> C" by simp_all
    with j have bk: "B ! k ! j \<in> C" using nth_mem [of j "B ! k"] by auto
    from mul rk bk show ?thesis by simp
  qed
  have tC: "\<forall>k\<in>set [0..<length B]. ?t k \<in> C" using t by simp
  have ts: "(\<Sum>k\<leftarrow>[0..<length B]. \<phi> (?t k)) =
      (\<Sum>k\<leftarrow>[0..<length B]. \<phi> (row ! k) * \<phi> (B ! k ! j))"
    by (rule arg_cong [where f = sum_list], rule map_cong [OF refl]) (simp add: t)
  show ?thesis
  proof (cases "ufunc_mode F = PythonCalculate")
    case True
    have s: "set (map ?t [0..<length B]) \<subseteq> C" using t by auto
    from field_sum_exact [OF add z s]
    have "field_sum (ADD (kern F)) (map ?t [0..<length B]) \<in> C \<and>
        \<phi> (field_sum (ADD (kern F)) (map ?t [0..<length B])) =
          (\<Sum>k\<leftarrow>[0..<length B]. \<phi> (?t k))"
      by (simp add: comp_def)
    with np True j ts show ?thesis by (simp add: row_matmul_def)
  next
    case False
    from foldl_field_sum [OF add z(1) tC]
    have "foldl (\<lambda>c k. ADD (kern F) c (?t k)) 0 [0..<length B] \<in> C \<and>
        \<phi> (foldl (\<lambda>c k. ADD (kern F) c (?t k)) 0 [0..<length B]) =
          (\<Sum>k\<leftarrow>[0..<length B]. \<phi> (?t k))"
      using z(2) by simp
    with np False j ts show ?thesis by (simp add: row_matmul_def)
  qed
qed

lemma row_matmul_prime:
  assumes "is_prime_field F" and "length row = length B" and "j < N"
  shows "row_matmul F row N B ! j =
     (\<Sum>k\<leftarrow>[0..<length B]. row ! k * (B ! k ! j)) mod CHARACTERISTIC (kern F)"
  using assms by (simp add: row_matmul_def int_dot_column)


section \<open>A field that is not a prime field: GF(4)\<close>

text \<open>
  The field with four elements \<open>0, 1, x, x + 1\<close>, polynomials over GF(2) modulo
  \<open>x^2 + x + 1\<close>, as a ring of its own, and the integers \<open>0, 1, 2, 3\<close> that stand for
  its elements in an array: addition is the exclusive or of the two bits, multiplication
  is given by its table. The kernels that a matrix product does not call (powers,
  Berlekamp-Massey, root search) are not given and raise.
\<close>

datatype gf4 = G0 | G1 | G2 | G3

fun gf4_plus :: "gf4 \<Rightarrow> gf4 \<Rightarrow> gf4" where
  "gf4_plus G0 y = y"
| "gf4_plus x G0 = x"
| "gf4_plus G1 G1 = G0"
| "gf4_plus G1 G2 = G3"
| "gf4_plus G1 G3 = G2"
| "gf4_plus G2 G1 = G3"
| "gf4_plus G2 G2 = G0"
| "gf4_plus G2 G3 = G1"
| "gf4_plus G3 G1 = G2"
| "gf4_plus G3 G2 = G1"
| "gf4_plus G3 G3 = G0"

fun gf4_times :: "gf4 \<Rightarrow> gf4 \<Rightarrow> gf4" where
  "gf4_times G0 y = G0"
| "gf4_times x G0 = G0"
| "gf4_times G1 y = y"
| "gf4_times x G1 = x"
| "gf4_times G2 G2 = G3"
| "gf4_times G2 G3 = G1"
| "gf4_times G3 G2 = G1"
| "gf4_times G3 G3 = G2"

instantiation gf4 :: comm_ring_1
begin

definition zero_gf4 :: gf4 where "zero_gf4 = G0"
definition one_gf4 :: gf4 where "one_gf4 = G1"
definition plus_gf4 :: "gf4 \<Rightarrow> gf4 \<Rightarrow> gf4" where "plus_gf4 = gf4_plus"
definition minus_gf4 :: "gf4 \<Rightarrow> gf4 \<Rightarrow> gf4" where "minus_gf4 = gf4_plus"
definition uminus_gf4 :: "gf4 \<Rightarrow> gf4" where "uminus_gf4 x = x"
definition times_gf4 :: "gf4 \<Rightarrow> gf4 \<Rightarrow> gf4" where "times_gf4 = gf4_times"

instance
proof
  fix a b c :: gf4
  show "a + b + c = a + (b + c)"
    unfolding plus_gf4_def by (cases a; cases b; cases c) simp_all
  show "a + b = b + a"
    unfolding plus_gf4_def by (cases a; cases b) simp_all
  show "0 + a = a"
    unfolding plus_gf4_def zero_gf4_def by simp
  show "- a + a = 0"
    unfolding plus_gf4_def zero_gf4_def uminus_gf4_def by (cases a) simp_all
  show "a - b = a + - b"
    unfolding plus_gf4_def minus_gf4_def uminus_gf4_def by simp
  show "a * b * c = a * (b * c)"
    unfolding times_gf4_def by (cases a; cases b; cases c) simp_all
  show "a * b = b * a"
    unfolding times_gf4_def by (cases a; cases b) simp_all
  show "1 * a = a"
    unfolding times_gf4_def one_gf4_def by (cases a) simp_all
  show "(a + b) * c = a * c + b * c"
    unfolding times_gf4_def plus_gf4_def by (cases a; cases b; cases c) simp_all
  show "(0::gf4) \<noteq> 1"
    unfolding zero_gf4_def one_gf4_def by simp
qed

end

definition gf4_of_int :: "int \<Rightarrow> gf4" where
  "gf4_of_int x = (if x = 1 then G1 else if x = 2 then G2 else if x = 3 then G3 else G0)"

definition gf4_add :: "int \<Rightarrow> int \<Rightarrow> int" where
  "gf4_add a b = (a + b) mod 2 + 2 * ((a div 2 + b div 2) mod 2)"

definition gf4_multiply :: "int \<Rightarrow> int \<Rightarrow> int" where
  "gf4_multiply a b =
     (if a = 0 \<or> b = 0 then 0 else if a = 1 then b else if b = 1 then a
      else if a = b then (if a = 2 then 3 else 2) else 1)"

lemma gf4_elements: "a \<in> {0..<4} \<Longrightarrow> a = 0 \<or> a = 1 \<or> a = 2 \<or> a = (3::int)"
  by auto

lemma gf4_add_exact:
  assumes "a \<in> {0..<4}" and "b \<in> {0..<4}"
  shows "gf4_add a b \<in> {0..<4} \<and> gf4_of_int (gf4_add a b) = gf4_of_int a + gf4_of_int b"
  using gf4_elements [OF assms(1)] gf4_elements [OF assms(2)]
  by (elim disjE) (simp_all add: gf4_add_def gf4_of_int_def plus_gf4_def)

lemma gf4_multiply_exact:
  assumes "a \<in> {0..<4}" and "b \<in> {0..<4}"
  shows "gf4_multiply a b \<in> {0..<4} \<and>
     gf4_of_int (gf4_multiply a b) = gf4_of_int a * gf4_of_int b"
  using gf4_elements [OF assms(1)] gf4_elements [OF assms(2)]
  by (elim disjE) (simp_all add: gf4_multiply_def gf4_of_int_def times_gf4_def)

lemma gf4_subtract_exact:
  assumes "a \<in> {0..<4}" and "b \<in> {0..<4}"
  shows "gf4_add a b \<in> {0..<4} \<and> gf4_of_int (gf4_add a b) = gf4_of_int a - gf4_of_int b"
  using gf4_add_exact [OF assms] by (simp add: plus_gf4_def minus_gf4_def)

definition gf4_kernels :: kernels where
  "gf4_kernels =
     \<lparr>ADD = gf4_add, SUBTRACT = gf4_add, MULTIPLY = gf4_multiply,
      RECIPROCAL = (\<lambda>a. if a = 0 then Inl ZeroDivisionError else Inr (gf4_multiply a a)),
      POWER = (\<lambda>a e. Inl NotImplementedError),
      BERLEKAMP_MASSEY = (\<lambda>s. Inl NotImplementedError),
      POLY_ROOTS = (\<lambda>d c a. Inl NotImplementedError),
      POLY_EVAL = poly_evaluate_jit gf4_add gf4_multiply,
      CONVOLVE = convolve_jit gf4_add gf4_multiply,
      CHARACTERISTIC = 2, DEGREE = 2, IRREDUCIBLE_POLY = 7\<rparr>"

definition gf4_class :: "ufunc_mode \<Rightarrow> field_class" where
  "gf4_class mode =
     \<lparr>kern = gf4_kernels, order = 4, primitive_element = 2, ufunc_mode = mode,
      is_prime_field = False, class_id = 4,
      DIVIDE = (\<lambda>a b. if b = 0 then Inl ZeroDivisionError
                        else Inr (gf4_multiply a (gf4_multiply b b))),
      view_check = check_values 4,
      poly_divmod_rows = (\<lambda>a b. Inl NotImplementedError)\<rparr>"

lemma gf4_represents: "represents gf4_kernels {0..<4} gf4_of_int"
  unfolding represents_def
proof (intro conjI ballI)
  show "(0::int) \<in> {0..<4}" by simp
  show "(1::int) \<in> {0..<4}" by simp
  show "gf4_of_int 0 = 0" by (simp add: gf4_of_int_def zero_gf4_def)
  show "gf4_of_int 1 = 1" by (simp add: gf4_of_int_def one_gf4_def)
next
  fix a b :: int assume a: "a \<in> {0..<4}" and b: "b \<in> {0..<4}"
  from gf4_add_exact [OF a b] show "ADD gf4_kernels a b \<in> {0..<4}"
    by (simp add: gf4_kernels_def)
  from gf4_add_exact [OF a b]
  show "gf4_of_int (ADD gf4_kernels a b) = gf4_of_int a + gf4_of_int b"
    by (simp add: gf4_kernels_def)
  from gf4_subtract_exact [OF a b] show "SUBTRACT gf4_kernels a b \<in> {0..<4}"
    by (simp add: gf4_kernels_def)
  from gf4_subtract_exact [OF a b]
  show "gf4_of_int (SUBTRACT gf4_kernels a b) = gf4_of_int a - gf4_of_int b"
    by (simp add: gf4_kernels_def)
  from gf4_multiply_exact [OF a b] show "MULTIPLY gf4_kernels a b \<in> {0..<4}"
    by (simp add: gf4_kernels_def)
  from gf4_multiply_exact [OF a b]
  show "gf4_of_int (MULTIPLY gf4_kernels a b) = gf4_of_int a * gf4_of_int b"
    by (simp add: gf4_kernels_def)
qed


text \<open>
  C7. For two 2-D arrays \<open>A\<close> (with \<open>K\<close> columns) and \<open>B\<close> (with \<open>N\<close> columns) of one
  field class: when \<open>K\<close> is not the number of rows of \<open>B\<close>, \<open>matmul\<close> raises
  \<open>ValueError\<close>; otherwise it returns an array of the same class with as many rows as
  \<open>A\<close> and \<open>N\<close> columns. Over a prime field every entry is the integer sum of the
  products \<open>A[i][k] B[k][j]\<close> reduced modulo the characteristic. Over any other field,
  whose kernels compute in a commutative ring (\<open>represents\<close>), on the compiled path and
  on the Python path alike, every entry is a field element and, read in the ring, is the
  sum of the products \<open>A[i][k] B[k][j]\<close>: the product is exact. The rows of \<open>A\<close> and
  \<open>B\<close> have \<open>K\<close> and \<open>N\<close> entries, which are field elements.
\<close>

theorem matmul_shape_error_or_exact_product:
  fixes \<phi> :: "int \<Rightarrow> 'a::comm_ring_1"
  shows "(K \<noteq> length B \<longrightarrow>
      matmul F \<lparr>atype = ty, adata = Mat K A\<rparr> \<lparr>atype = ty, adata = Mat N B\<rparr> = Inl ValueError) \<and>
   (K = length B \<longrightarrow>
      (\<exists>C. matmul F \<lparr>atype = ty, adata = Mat K A\<rparr> \<lparr>atype = ty, adata = Mat N B\<rparr> =
              Inr \<lparr>atype = ty, adata = Mat N C\<rparr> \<and>
           length C = length A \<and> (\<forall>i<length A. length (C ! i) = N) \<and>
           (is_prime_field F \<and> (\<forall>r\<in>set A. length r = K) \<longrightarrow>
              (\<forall>i<length A. \<forall>j<N.
                 C ! i ! j = (\<Sum>k\<leftarrow>[0..<K]. A ! i ! k * (B ! k ! j)) mod
                               CHARACTERISTIC (kern F))) \<and>
           (\<not> is_prime_field F \<and> represents (kern F) Cs \<phi> \<and>
            (\<forall>r\<in>set A. length r = K \<and> set r \<subseteq> Cs) \<and>
            (\<forall>r\<in>set B. length r = N \<and> set r \<subseteq> Cs) \<longrightarrow>
              (\<forall>i<length A. \<forall>j<N.
                 C ! i ! j \<in> Cs \<and>
                 \<phi> (C ! i ! j) = (\<Sum>k\<leftarrow>[0..<K]. \<phi> (A ! i ! k) * \<phi> (B ! k ! j))))))"
proof (intro conjI impI)
  assume "K \<noteq> length B"
  then show "matmul F \<lparr>atype = ty, adata = Mat K A\<rparr> \<lparr>atype = ty, adata = Mat N B\<rparr> =
      Inl ValueError" by (rule matmul_shape_mismatch)
next
  assume K: "K = length B"
  let ?C = "map (\<lambda>row. row_matmul F row N B) A"
  have m: "matmul F \<lparr>atype = ty, adata = Mat K A\<rparr> \<lparr>atype = ty, adata = Mat N B\<rparr> =
      Inr \<lparr>atype = ty, adata = Mat N ?C\<rparr>" by (rule matmul_2d [OF K])
  have l: "length ?C = length A" by simp
  have r: "\<forall>i<length A. length (?C ! i) = N" by simp
  have p: "is_prime_field F \<and> (\<forall>r\<in>set A. length r = K) \<longrightarrow>
              (\<forall>i<length A. \<forall>j<N.
                 ?C ! i ! j = (\<Sum>k\<leftarrow>[0..<K]. A ! i ! k * (B ! k ! j)) mod
                               CHARACTERISTIC (kern F))"
  proof (intro impI allI)
    fix i j assume a: "is_prime_field F \<and> (\<forall>r\<in>set A. length r = K)"
      and i: "i < length A" and j: "j < N"
    from i have "A ! i \<in> set A" by simp
    with a K have len: "length (A ! i) = length B" by simp
    from a have pf: "is_prime_field F" by simp
    from row_matmul_prime [OF pf len j] i K
    show "?C ! i ! j = (\<Sum>k\<leftarrow>[0..<K]. A ! i ! k * (B ! k ! j)) mod CHARACTERISTIC (kern F)"
      by simp
  qed
  have e: "\<not> is_prime_field F \<and> represents (kern F) Cs \<phi> \<and>
            (\<forall>r\<in>set A. length r = K \<and> set r \<subseteq> Cs) \<and>
            (\<forall>r\<in>set B. length r = N \<and> set r \<subseteq> Cs) \<longrightarrow>
              (\<forall>i<length A. \<forall>j<N.
                 ?C ! i ! j \<in> Cs \<and>
                 \<phi> (?C ! i ! j) = (\<Sum>k\<leftarrow>[0..<K]. \<phi> (A ! i ! k) * \<phi> (B ! k ! j)))"
  proof (intro impI allI)
    fix i j assume a: "\<not> is_prime_field F \<and> represents (kern F) Cs \<phi> \<and>
            (\<forall>r\<in>set A. length r = K \<and> set r \<subseteq> Cs) \<and>
            (\<forall>r\<in>set B. length r = N \<and> set r \<subseteq> Cs)"
      and i: "i < length A" and j: "j < N"
    from a have np: "\<not> is_prime_field F" and rep: "represents (kern F) Cs \<phi>"
      and rA: "\<forall>r\<in>set A. length r = K \<and> set r \<subseteq> Cs"
      and rB: "\<forall>r\<in>set B. length r = N \<and> set r \<subseteq> Cs" by simp_all
    from i have "A ! i \<in> set A" by simp
    with rA K have len: "length (A ! i) = length B" and sub: "set (A ! i) \<subseteq> Cs" by simp_all
    from row_matmul_exact [OF np rep len sub rB j] i K
    show "?C ! i ! j \<in> Cs \<and>
        \<phi> (?C ! i ! j) = (\<Sum>k\<leftarrow>[0..<K]. \<phi> (A ! i ! k) * \<phi> (B ! k ! j))"
      by simp
  qed
  show "\<exists>C. matmul F \<lparr>atype = ty, adata = Mat K A\<rparr> \<lparr>atype = ty, adata = Mat N B\<rparr> =
              Inr \<lparr>atype = ty, adata = Mat N C\<rparr> \<and>
           length C = length A \<and> (\<forall>i<length A. length (C ! i) = N) \<and>
           (is_prime_field F \<and> (\<forall>r\<in>set A. length r = K) \<longrightarrow>
              (\<forall>i<length A. \<forall>j<N.
                 C ! i ! j = (\<Sum>k\<leftarrow>[0..<K]. A ! i ! k * (B ! k ! j)) mod
                               CHARACTERISTIC (kern F))) \<and>
           (\<not> is_prime_field F \<and> represents (kern F) Cs \<phi> \<and>
            (\<forall>r\<in>set A. length r = K \<and> set r \<subseteq> Cs) \<and>
            (\<forall>r\<in>set B. length r = N \<and> set r \<subseteq> Cs) \<longrightarrow>
              (\<forall>i<length A. \<forall>j<N.
                 C ! i ! j \<in> Cs \<and>
                 \<phi> (C ! i ! j) = (\<Sum>k\<leftarrow>[0..<K]. \<phi> (A ! i ! k) * \<phi> (B ! k ! j))))"
    by (rule exI [of _ ?C]) (intro conjI m l r p e)
qed


text \<open>
  Witness: over the prime field GF(5) a product of a 2-by-2 and a 3-by-2 array is
  refused and the product of a 2-by-2 and a 2-by-3 array is the integer product modulo
  5; over GF(4) the product of two 2-by-2 arrays is the product in the field, for
  instance \<open>1 x + x (x + 1) = x + 1\<close> in its first entry.
\<close>

theorem matmul_shape_error_or_exact_product_witness:
  "matmul (gf5_class JitLookup) \<lparr>atype = 5, adata = Mat 2 [[1, 2], [3, 4]]\<rparr>
     \<lparr>atype = 5, adata = Mat 2 [[1, 0], [0, 1], [1, 1]]\<rparr> = Inl ValueError \<and>
   matmul (gf5_class JitLookup) \<lparr>atype = 5, adata = Mat 2 [[1, 2], [3, 4]]\<rparr>
     \<lparr>atype = 5, adata = Mat 3 [[1, 0, 2], [0, 1, 3]]\<rparr> =
     Inr \<lparr>atype = 5, adata = Mat 3 [[1, 2, 3], [3, 4, 3]]\<rparr> \<and>
   [[1, 2, 3], [3, 4, 3]] ! 1 ! 2 =
     (\<Sum>k\<leftarrow>[0..<2]. [[1, 2], [3, 4]] ! 1 ! k * ([[1, 0, 2], [0, 1, 3]] ! k ! 2)) mod
       CHARACTERISTIC (kern (gf5_class JitLookup)) \<and>
   represents (kern (gf4_class JitCalculate)) {0..<4} gf4_of_int \<and>
   matmul (gf4_class JitCalculate) \<lparr>atype = 4, adata = Mat 2 [[1, 2], [3, 0]]\<rparr>
     \<lparr>atype = 4, adata = Mat 2 [[2, 3], [3, 1]]\<rparr> =
     Inr \<lparr>atype = 4, adata = Mat 2 [[3, 1], [1, 2]]\<rparr> \<and>
   gf4_of_int ([[3, 1], [1, 2]] ! 0 ! 0) =
     (\<Sum>k\<leftarrow>[0..<2]. gf4_of_int ([[1, 2], [3, 0]] ! 0 ! k) *
                        gf4_of_int ([[2, 3], [3, 1]] ! k ! 0))"
proof -
  have k3: "(2::nat) \<noteq> length [[1, 0], [0, 1], [1, 1 :: int]]" by simp
  have k2: "(2::nat) = length [[1, 0, 2], [0, 1, 3 :: int]]" by simp
  have k4: "(2::nat) = length [[2, 3], [3, 1 :: int]]" by simp
  have w1: "matmul (gf5_class JitLookup) \<lparr>atype = 5, adata = Mat 2 [[1, 2], [3, 4]]\<rparr>
     \<lparr>atype = 5, adata = Mat 2 [[1, 0], [0, 1], [1, 1]]\<rparr> = Inl ValueError"
    by (rule matmul_shape_error_or_exact_product
        [where \<phi> = gf4_of_int and Cs = "{0..<4}", THEN conjunct1, THEN mp, OF k3])
  note t2 = matmul_shape_error_or_exact_product
    [where \<phi> = gf4_of_int and Cs = "{0..<4}" and F = "gf5_class JitLookup" and ty = 5
       and K = 2 and A = "[[1, 2], [3, 4]]" and N = 3 and B = "[[1, 0, 2], [0, 1, 3]]",
     THEN conjunct2, THEN mp, OF k2]
  then obtain C where m2: "matmul (gf5_class JitLookup)
        \<lparr>atype = 5, adata = Mat 2 [[1, 2], [3, 4]]\<rparr>
        \<lparr>atype = 5, adata = Mat 3 [[1, 0, 2], [0, 1, 3]]\<rparr> = Inr \<lparr>atype = 5, adata = Mat 3 C\<rparr>"
    and p2: "is_prime_field (gf5_class JitLookup) \<and>
        (\<forall>r\<in>set [[1, 2], [3, 4 :: int]]. length r = 2) \<longrightarrow>
              (\<forall>i<length [[1, 2], [3, 4 :: int]]. \<forall>j<3.
                 C ! i ! j = (\<Sum>k\<leftarrow>[0..<2]. [[1, 2], [3, 4]] ! i ! k *
                               ([[1, 0, 2], [0, 1, 3]] ! k ! j)) mod
                               CHARACTERISTIC (kern (gf5_class JitLookup)))"
    by (elim exE conjE)
  have v2: "matmul (gf5_class JitLookup) \<lparr>atype = 5, adata = Mat 2 [[1, 2], [3, 4]]\<rparr>
     \<lparr>atype = 5, adata = Mat 3 [[1, 0, 2], [0, 1, 3]]\<rparr> =
     Inr \<lparr>atype = 5, adata = Mat 3 [[1, 2, 3], [3, 4, 3]]\<rparr>" by code_simp
  from m2 v2 have C: "C = [[1, 2, 3], [3, 4, 3]]" by simp
  have h2: "is_prime_field (gf5_class JitLookup) \<and>
        (\<forall>r\<in>set [[1, 2], [3, 4 :: int]]. length r = 2)"
    by (simp add: gf5_class_def)
  from p2 [THEN mp, OF h2, THEN spec [where x = 1], THEN mp, THEN spec [where x = 2], THEN mp]
  have w3: "[[1, 2, 3], [3, 4, 3]] ! 1 ! 2 =
     (\<Sum>k\<leftarrow>[0..<2]. [[1, 2], [3, 4]] ! 1 ! k * ([[1, 0, 2], [0, 1, 3]] ! k ! 2)) mod
       CHARACTERISTIC (kern (gf5_class JitLookup))"
    unfolding C by simp
  have kk: "kern (gf4_class JitCalculate) = gf4_kernels" by (simp add: gf4_class_def)
  have rep: "represents (kern (gf4_class JitCalculate)) {0..<4} gf4_of_int"
    unfolding kk by (rule gf4_represents)
  note t4 = matmul_shape_error_or_exact_product
    [where \<phi> = gf4_of_int and Cs = "{0..<4}" and F = "gf4_class JitCalculate" and ty = 4
       and K = 2 and A = "[[1, 2], [3, 0]]" and N = 2 and B = "[[2, 3], [3, 1]]",
     THEN conjunct2, THEN mp, OF k4]
  then obtain D where m4: "matmul (gf4_class JitCalculate)
        \<lparr>atype = 4, adata = Mat 2 [[1, 2], [3, 0]]\<rparr>
        \<lparr>atype = 4, adata = Mat 2 [[2, 3], [3, 1]]\<rparr> = Inr \<lparr>atype = 4, adata = Mat 2 D\<rparr>"
    and p4: "\<not> is_prime_field (gf4_class JitCalculate) \<and>
        represents (kern (gf4_class JitCalculate)) {0..<4} gf4_of_int \<and>
        (\<forall>r\<in>set [[1, 2], [3, 0 :: int]]. length r = 2 \<and> set r \<subseteq> {0..<4}) \<and>
        (\<forall>r\<in>set [[2, 3], [3, 1 :: int]]. length r = 2 \<and> set r \<subseteq> {0..<4}) \<longrightarrow>
              (\<forall>i<length [[1, 2], [3, 0 :: int]]. \<forall>j<2.
                 D ! i ! j \<in> {0..<4} \<and>
                 gf4_of_int (D ! i ! j) =
                   (\<Sum>k\<leftarrow>[0..<2]. gf4_of_int ([[1, 2], [3, 0]] ! i ! k) *
                                      gf4_of_int ([[2, 3], [3, 1]] ! k ! j)))"
    by (elim exE conjE)
  have v4: "matmul (gf4_class JitCalculate) \<lparr>atype = 4, adata = Mat 2 [[1, 2], [3, 0]]\<rparr>
     \<lparr>atype = 4, adata = Mat 2 [[2, 3], [3, 1]]\<rparr> =
     Inr \<lparr>atype = 4, adata = Mat 2 [[3, 1], [1, 2]]\<rparr>" by code_simp
  from m4 v4 have D: "D = [[3, 1], [1, 2]]" by simp
  have np: "\<not> is_prime_field (gf4_class JitCalculate)" by (simp add: gf4_class_def)
  have rA: "\<forall>r\<in>set [[1, 2], [3, 0 :: int]]. length r = 2 \<and> set r \<subseteq> {0..<4}" by simp
  have rB: "\<forall>r\<in>set [[2, 3], [3, 1 :: int]]. length r = 2 \<and> set r \<subseteq> {0..<4}" by simp
  from p4 [THEN mp, OF conjI [OF np conjI [OF rep conjI [OF rA rB]]],
      THEN spec [where x = 0], THEN mp, THEN spec [where x = 0], THEN mp, THEN conjunct2]
  have w6: "gf4_of_int ([[3, 1], [1, 2]] ! 0 ! 0) =
     (\<Sum>k\<leftarrow>[0..<2]. gf4_of_int ([[1, 2], [3, 0]] ! 0 ! k) *
                        gf4_of_int ([[2, 3], [3, 1]] ! k ! 0))"
    unfolding D by simp
  from w1 v2 w3 rep v4 w6 show ?thesis by (intro conjI)
qed

section \<open>Equal-degree factorization (src/galois/\_polys/\_factor.py)\<close>

text \<open>
  A polynomial is the list of its coefficients in descending degree, as \<open>Poly.coeffs\<close>
  has them: no leading zero, and \<open>[0]\<close> for the zero polynomial. The functions that
  \<open>equal_degree_factorization\<close> calls and that are not part of the sources are
  parameters: \<open>poly_gcd\<close>, \<open>poly_pow\<close> (power modulo a polynomial), the difference and
  the quotient of two polynomials, and \<open>Poly.Random\<close>, which is given the degree and the
  state of the random generator. \<open>forder\<close> is \<open>field.order\<close>.
\<close>

record poly_ops =
  forder :: nat
  poly_gcd :: "int list \<Rightarrow> int list \<Rightarrow> int list"
  poly_pow :: "int list \<Rightarrow> nat \<Rightarrow> int list \<Rightarrow> int list"
  poly_minus :: "int list \<Rightarrow> int list \<Rightarrow> int list"
  poly_quot :: "int list \<Rightarrow> int list \<Rightarrow> int list"
  poly_random :: "nat \<Rightarrow> nat \<Rightarrow> int list"

text \<open>\<open>Poly.integer\<close>: the coefficients read as the digits of a number in base \<open>q\<close>.\<close>

definition poly_integer :: "nat \<Rightarrow> int list \<Rightarrow> int" where
  "poly_integer q p = foldl (\<lambda>acc c. acc * int q + c) 0 p"

text \<open>
  The loop \<open>for u in factors_\<close>, whose body removes \<open>u\<close> from the list and appends two
  factors to it. Python walks the list by an index into the list as it is at each step,
  so after a removal the next element is skipped and the appended factors are visited
  in the same loop. \<open>remove\<close> takes out the first element equal to \<open>u\<close>. The loop ends
  when the index reaches the end of the list; \<open>None\<close> says that it has not ended within
  the given number of steps.
\<close>

fun split_factors ::
  "nat \<Rightarrow> poly_ops \<Rightarrow> int list \<Rightarrow> nat \<Rightarrow> int list list \<Rightarrow> int list list option" where
  "split_factors 0 P g i fs = None"
| "split_factors (Suc fuel) P g i fs =
     (if i \<ge> length fs then Some fs
      else
        let u = fs ! i; c = poly_gcd P g u in
        if c \<noteq> [1] \<and> c \<noteq> u
        then split_factors fuel P g (Suc i) (remove1 u fs @ [c, poly_quot P u c])
        else split_factors fuel P g (Suc i) fs)"

text \<open>
  The polynomial \<open>g\<close> of pass \<open>k\<close> of the \<open>while\<close> loop. The random generator is the
  sequence \<open>src\<close> of its outputs: pass \<open>k\<close> takes \<open>src (2 k)\<close> for
  \<open>random.randint(1, n - 1)\<close> and \<open>src (2 k + 1)\<close> for \<open>Poly.Random\<close>.
\<close>

definition splitter :: "poly_ops \<Rightarrow> (nat \<Rightarrow> nat) \<Rightarrow> int list \<Rightarrow> nat \<Rightarrow> nat \<Rightarrow> int list" where
  "splitter P src poly d k =
     (let n = length poly - 1;
          h = poly_random P (1 + src (2 * k) mod (n - 1)) (src (2 * k + 1));
          g = poly_gcd P poly h
      in if g = [1] then poly_minus P (poly_pow P h ((forder P ^ d - 1) div 2) poly) [1]
         else g)"

text \<open>
  \<open>while len(factors_) < r\<close>. \<open>random.randint(1, n - 1)\<close> raises for \<open>n - 1 < 1\<close>.
  \<open>None\<close> says that the loop has not ended within the given number of steps, a pass of
  the \<open>while\<close> loop and a step of the \<open>for\<close> loop each counting for one.
\<close>

fun edf_loop ::
  "nat \<Rightarrow> poly_ops \<Rightarrow> (nat \<Rightarrow> nat) \<Rightarrow> int list \<Rightarrow> nat \<Rightarrow> int \<Rightarrow> nat \<Rightarrow> int list list
     \<Rightarrow> int list list result option" where
  "edf_loop 0 P src poly d r k fs = None"
| "edf_loop (Suc fuel) P src poly d r k fs =
     (if \<not> int (length fs) < r then Some (Inr fs)
      else if length poly - 1 - 1 < 1 then Some (Inl ValueError)
      else
        (case split_factors fuel P (splitter P src poly d k) 0 fs of
           None \<Rightarrow> None
         | Some fs' \<Rightarrow> edf_loop fuel P src poly d r (Suc k) fs'))"

text \<open>
  \<open>equal_degree_factorization\<close>. The arguments are typed, so the two \<open>isinstance\<close>
  checks pass. \<open>poly.degree\<close> is the number of coefficients less one; \<open>is_monic\<close> says
  that the leading coefficient is 1; \<open>poly.degree % d\<close> raises for \<open>d = 0\<close>. The loop is
  entered only with \<open>r > 1\<close>, hence \<open>d > 0\<close>. The factors are sorted by their integers.
\<close>

definition equal_degree_factorization ::
  "nat \<Rightarrow> poly_ops \<Rightarrow> (nat \<Rightarrow> nat) \<Rightarrow> int list \<Rightarrow> int \<Rightarrow> int list list result option" where
  "equal_degree_factorization fuel P src poly d =
     (let n = int (length poly) - 1 in
      if \<not> n \<ge> 1 then Some (Inl ValueError)
      else if \<not> hd poly = 1 then Some (Inl ValueError)
      else if d = 0 then Some (Inl ZeroDivisionError)
      else if \<not> n mod d = 0 then Some (Inl ValueError)
      else
        map_option (map_sum id (sort_key (poly_integer (forder P))))
          (edf_loop fuel P src poly (nat d) (n div d) 0 [poly]))"


section \<open>Polynomials over a prime field\<close>

text \<open>
  Modelled from the spec: \<open>poly_gcd\<close>, \<open>poly_pow\<close> (galois/\_polys/\_functions.py) and
  the arithmetic of \<open>Poly\<close> (galois/\_polys/\_poly.py) are not part of the sources.
  Over the prime field GF(\<open>p\<close>): coefficients are reduced modulo \<open>p\<close>, the quotient and
  the remainder are those of long division, the greatest common divisor is computed by
  Euclid's algorithm and made monic, and the power is reduced modulo the modulus at
  every step. \<open>Poly.Random\<close> returns a polynomial of the given degree; here its
  coefficients are the digits of the state of the generator, so that every polynomial
  of that degree is drawn for some state.
\<close>

definition pnorm :: "int list \<Rightarrow> int list" where
  "pnorm xs = (case dropWhile (\<lambda>c. c = 0) xs of [] \<Rightarrow> [0] | y # ys \<Rightarrow> y # ys)"

definition pad_to :: "nat \<Rightarrow> int list \<Rightarrow> int list" where
  "pad_to m xs = replicate (m - length xs) 0 @ xs"

definition padd :: "int \<Rightarrow> int list \<Rightarrow> int list \<Rightarrow> int list" where
  "padd p a b =
     (let m = max (length a) (length b) in
      pnorm (map2 (\<lambda>x y. (x + y) mod p) (pad_to m a) (pad_to m b)))"

definition psub :: "int \<Rightarrow> int list \<Rightarrow> int list \<Rightarrow> int list" where
  "psub p a b =
     (let m = max (length a) (length b) in
      pnorm (map2 (\<lambda>x y. (x - y) mod p) (pad_to m a) (pad_to m b)))"

definition pinv :: "int \<Rightarrow> int \<Rightarrow> int" where
  "pinv p x = (x ^ nat (p - 2)) mod p"

fun pdivmod :: "nat \<Rightarrow> int \<Rightarrow> int list \<Rightarrow> int list \<Rightarrow> int list \<times> int list" where
  "pdivmod 0 p a b = ([0], a)"
| "pdivmod (Suc fuel) p a b =
     (if length a < length b \<or> a = [0] then ([0], a)
      else
        let c = (hd a * pinv p (hd b)) mod p;
            k = length a - length b;
            a' = pnorm (map2 (\<lambda>x y. (x - c * y) mod p) a (b @ replicate k 0));
            (q, r) = pdivmod fuel p a' b
        in (padd p (c # replicate k 0) q, r))"

definition pquot :: "int \<Rightarrow> int list \<Rightarrow> int list \<Rightarrow> int list" where
  "pquot p a b = fst (pdivmod (length a) p a b)"

definition pmod :: "int \<Rightarrow> int list \<Rightarrow> int list \<Rightarrow> int list" where
  "pmod p a b = snd (pdivmod (length a) p a b)"

fun euclid :: "nat \<Rightarrow> int \<Rightarrow> int list \<Rightarrow> int list \<Rightarrow> int list" where
  "euclid 0 p a b = a"
| "euclid (Suc fuel) p a b = (if b = [0] then a else euclid fuel p b (pmod p a b))"

definition pgcd :: "int \<Rightarrow> int list \<Rightarrow> int list \<Rightarrow> int list" where
  "pgcd p a b =
     (let g = euclid (Suc (length b)) p a b in
      if g = [0] then g else map (\<lambda>x. (x * pinv p (hd g)) mod p) g)"

definition pmul :: "int \<Rightarrow> int list \<Rightarrow> int list \<Rightarrow> int list" where
  "pmul p a b = foldl (\<lambda>acc c. padd p (acc @ [0]) (map (\<lambda>y. (c * y) mod p) b)) [0] a"

fun ppow :: "int \<Rightarrow> int list \<Rightarrow> nat \<Rightarrow> int list \<Rightarrow> int list" where
  "ppow p h 0 f = pmod p [1] f"
| "ppow p h (Suc e) f = pmod p (pmul p h (ppow p h e f)) f"

definition prandom :: "nat \<Rightarrow> nat \<Rightarrow> nat \<Rightarrow> int list" where
  "prandom p deg s =
     int (1 + s mod (p - 1)) #
       map (\<lambda>i. int ((s div (p - 1) div p ^ i) mod p)) (rev [0..<deg])"

definition gfp_ops :: "nat \<Rightarrow> poly_ops" where
  "gfp_ops p =
     \<lparr>forder = p, poly_gcd = pgcd (int p), poly_pow = ppow (int p),
      poly_minus = psub (int p), poly_quot = pquot (int p), poly_random = prandom p\<rparr>"

section \<open>Termination of the splitting loop\<close>

lemma split_factors_more_fuel:
  "split_factors fuel P g i fs = Some res \<Longrightarrow> fuel \<le> fuel' \<Longrightarrow>
     split_factors fuel' P g i fs = Some res"
proof (induction fuel arbitrary: fuel' i fs)
  case 0
  then show ?case by simp
next
  case (Suc fuel)
  from Suc.prems(2) obtain f where f: "fuel' = Suc f" and le: "fuel \<le> f"
    by (cases fuel') simp_all
  show ?case
  proof (cases "i \<ge> length fs")
    case True
    with Suc.prems(1) f show ?thesis by simp
  next
    case False
    let ?u = "fs ! i"
    let ?c = "poly_gcd P g ?u"
    show ?thesis
    proof (cases "?c \<noteq> [1] \<and> ?c \<noteq> ?u")
      case True
      with False Suc.prems(1) have
        "split_factors fuel P g (Suc i) (remove1 ?u fs @ [?c, poly_quot P ?u ?c]) = Some res"
        by (simp add: Let_def)
      from Suc.IH [OF this le] True False f show ?thesis by (simp add: Let_def)
    next
      case nosplit: False
      then have ns: "(?c \<noteq> [1] \<and> ?c \<noteq> ?u) = False" by simp
      from False Suc.prems(1) have "split_factors fuel P g (Suc i) fs = Some res"
        by (simp add: Let_def ns)
      from Suc.IH [OF this le] False f show ?thesis by (simp add: Let_def ns)
    qed
  qed
qed

lemma edf_loop_more_fuel:
  "edf_loop fuel P src poly d r k fs = Some res \<Longrightarrow> fuel \<le> fuel' \<Longrightarrow>
     edf_loop fuel' P src poly d r k fs = Some res"
proof (induction fuel arbitrary: fuel' k fs)
  case 0
  then show ?case by simp
next
  case (Suc fuel)
  from Suc.prems(2) obtain f where f: "fuel' = Suc f" and le: "fuel \<le> f"
    by (cases fuel') simp_all
  show ?case
  proof (cases "\<not> int (length fs) < r")
    case True
    with Suc.prems(1) f show ?thesis by simp
  next
    case more: False
    show ?thesis
    proof (cases "length poly - 1 - 1 < 1")
      case True
      with more Suc.prems(1) f show ?thesis by simp
    next
      case False
      show ?thesis
      proof (cases "split_factors fuel P (splitter P src poly d k) 0 fs")
        case None
        with more False Suc.prems(1) show ?thesis by simp
      next
        case (Some fs')
        with more False Suc.prems(1) have "edf_loop fuel P src poly d r (Suc k) fs' = Some res"
          by simp
        from Suc.IH [OF this le] split_factors_more_fuel [OF Some le] more False f
        show ?thesis by simp
      qed
    qed
  qed
qed

lemma edf_loop_enough_factors:
  "edf_loop fuel P src poly d r k fs = Some (Inr res) \<Longrightarrow> r \<le> int (length res)"
proof (induction fuel arbitrary: k fs)
  case 0
  then show ?case by simp
next
  case (Suc fuel)
  show ?case
  proof (cases "\<not> int (length fs) < r")
    case True
    with Suc.prems show ?thesis by simp
  next
    case more: False
    show ?thesis
    proof (cases "length poly - 1 - 1 < 1")
      case True
      with more Suc.prems show ?thesis by simp
    next
      case False
      show ?thesis
      proof (cases "split_factors fuel P (splitter P src poly d k) 0 fs")
        case None
        with more False Suc.prems show ?thesis by simp
      next
        case (Some fs')
        with more False Suc.prems have "edf_loop fuel P src poly d r (Suc k) fs' = Some (Inr res)"
          by simp
        then show ?thesis by (rule Suc.IH)
      qed
    qed
  qed
qed

text \<open>
  A pass whose \<open>g\<close> has the greatest common divisor 1 or \<open>poly\<close> with \<open>poly\<close> leaves the
  list \<open>[poly]\<close> as it is; when every pass is such a pass the loop never ends.
\<close>

lemma split_factors_nothing:
  assumes "poly_gcd P g poly = [1] \<or> poly_gcd P g poly = poly"
  shows "split_factors fuel P g 0 [poly] = None \<or> split_factors fuel P g 0 [poly] = Some [poly]"
proof (cases fuel)
  case 0
  then show ?thesis by simp
next
  case (Suc f)
  show ?thesis
  proof (cases f)
    case 0
    with Suc assms show ?thesis by (auto simp: Let_def)
  next
    case (Suc f')
    with \<open>fuel = Suc f\<close> assms show ?thesis by (auto simp: Let_def)
  qed
qed

lemma edf_loop_never_splits:
  assumes ns: "\<forall>k. poly_gcd P (splitter P src poly d k) poly = [1] \<or>
                    poly_gcd P (splitter P src poly d k) poly = poly"
    and r: "1 < r" and n: "\<not> length poly - 1 - 1 < 1"
  shows "edf_loop fuel P src poly d r k [poly] = None"
proof (induction fuel arbitrary: k)
  case 0
  then show ?case by simp
next
  case (Suc fuel)
  from split_factors_nothing [OF ns [rule_format, of k], of fuel]
  show ?case
  proof
    assume "split_factors fuel P (splitter P src poly d k) 0 [poly] = None"
    with r n show ?thesis by simp
  next
    assume "split_factors fuel P (splitter P src poly d k) 0 [poly] = Some [poly]"
    with r n Suc.IH [of "Suc k"] show ?thesis by simp
  qed
qed


lemma equal_degree_factorization_valid:
  assumes "int (length poly) - 1 \<ge> 1" and "hd poly = 1" and "d \<noteq> 0"
    and "(int (length poly) - 1) mod d = 0"
  shows "equal_degree_factorization fuel P src poly d =
     map_option (map_sum id (sort_key (poly_integer (forder P))))
       (edf_loop fuel P src poly (nat d) ((int (length poly) - 1) div d) 0 [poly])"
  using assms by (simp add: equal_degree_factorization_def Let_def)

lemma equal_degree_factorization_more_fuel:
  assumes "equal_degree_factorization fuel P src poly d = Some x" and "fuel \<le> fuel'"
  shows "equal_degree_factorization fuel' P src poly d = Some x"
proof (cases "int (length poly) - 1 \<ge> 1 \<and> hd poly = 1 \<and> d \<noteq> 0 \<and>
    (int (length poly) - 1) mod d = 0")
  case False
  then have "equal_degree_factorization fuel' P src poly d =
      equal_degree_factorization fuel P src poly d"
    by (auto simp: equal_degree_factorization_def Let_def)
  with assms(1) show ?thesis by simp
next
  case True
  then have v: "int (length poly) - 1 \<ge> 1" "hd poly = 1" "d \<noteq> 0"
    "(int (length poly) - 1) mod d = 0" by simp_all
  from assms(1) obtain y where
    y: "edf_loop fuel P src poly (nat d) ((int (length poly) - 1) div d) 0 [poly] = Some y"
    and x: "x = map_sum id (sort_key (poly_integer (forder P))) y"
    unfolding equal_degree_factorization_valid [OF v] by auto
  from edf_loop_more_fuel [OF y assms(2)] x show ?thesis
    unfolding equal_degree_factorization_valid [OF v] by simp
qed

lemma gf2_prandom: "prandom 2 1 s = [1, 0] \<or> prandom 2 1 s = [1, 1]"
proof -
  have "s mod 2 = 0 \<or> s mod 2 = 1" by arith
  then show ?thesis by (auto simp: prandom_def)
qed

lemma gf2_splitter: "splitter (gfp_ops 2) src [1, 1, 1] 1 k = [0]"
proof -
  have a: "pgcd 2 [1, 1, 1] [1, 0] = [1]" by code_simp
  have b: "pgcd 2 [1, 1, 1] [1, 1] = [1]" by code_simp
  have c: "psub 2 (ppow 2 [1, 0] 0 [1, 1, 1]) [1] = [0]" by code_simp
  have d: "psub 2 (ppow 2 [1, 1] 0 [1, 1, 1]) [1] = [0]" by code_simp
  from gf2_prandom [of "src (2 * k + 1)"] show ?thesis
  proof
    assume "prandom 2 1 (src (2 * k + 1)) = [1, 0]"
    with a c show ?thesis by (simp add: splitter_def gfp_ops_def Let_def)
  next
    assume "prandom 2 1 (src (2 * k + 1)) = [1, 1]"
    with b d show ?thesis by (simp add: splitter_def gfp_ops_def Let_def)
  qed
qed

lemma gf2_never_splits:
  "\<forall>k. poly_gcd (gfp_ops 2) (splitter (gfp_ops 2) src [1, 1, 1] 1 k) [1, 1, 1] = [1] \<or>
       poly_gcd (gfp_ops 2) (splitter (gfp_ops 2) src [1, 1, 1] 1 k) [1, 1, 1] = [1, 1, 1]"
proof
  fix k
  have "pgcd 2 [0] [1, 1, 1] = [1, 1, 1]" by code_simp
  then have "poly_gcd (gfp_ops 2) (splitter (gfp_ops 2) src [1, 1, 1] 1 k) [1, 1, 1] = [1, 1, 1]"
    unfolding gf2_splitter by (simp add: gfp_ops_def)
  then show "poly_gcd (gfp_ops 2) (splitter (gfp_ops 2) src [1, 1, 1] 1 k) [1, 1, 1] = [1] \<or>
       poly_gcd (gfp_ops 2) (splitter (gfp_ops 2) src [1, 1, 1] 1 k) [1, 1, 1] = [1, 1, 1]"
    by (rule disjI2)
qed

text \<open>
  C9. \<open>equal_degree_factorization\<close> is not bound to return. The number of steps given
  to the model is only a measure: a call that returns within some number of steps returns
  the same within any greater number. For an input that passes the checks: with
  \<open>r = n / d \<le> 1\<close> the call returns \<open>[poly]\<close> without drawing; a call that returns
  gives at least \<open>r\<close> factors, sorted by their integers; and with \<open>r \<ge> 2\<close>, when no
  drawn polynomial gives a \<open>g\<close> whose greatest common divisor with \<open>poly\<close> is a proper
  factor, the call does not return within any number of steps, whatever the generator
  gives.
\<close>

theorem equal_degree_factorization_returns_only_when_split:
  "(equal_degree_factorization fuel P src poly d = Some x \<and> fuel \<le> fuel' \<longrightarrow>
      equal_degree_factorization fuel' P src poly d = Some x) \<and>
   (int (length poly) - 1 \<ge> 1 \<and> hd poly = 1 \<and> d \<noteq> 0 \<and>
    (int (length poly) - 1) mod d = 0 \<and> (int (length poly) - 1) div d \<le> 1 \<longrightarrow>
      equal_degree_factorization (Suc fuel) P src poly d = Some (Inr [poly])) \<and>
   (int (length poly) - 1 \<ge> 1 \<and> hd poly = 1 \<and> d \<noteq> 0 \<and>
    (int (length poly) - 1) mod d = 0 \<and>
    equal_degree_factorization fuel P src poly d = Some (Inr fs) \<longrightarrow>
      (int (length poly) - 1) div d \<le> int (length fs) \<and>
      sorted (map (poly_integer (forder P)) fs)) \<and>
   (int (length poly) - 1 \<ge> 1 \<and> hd poly = 1 \<and> d \<noteq> 0 \<and>
    (int (length poly) - 1) mod d = 0 \<and> 1 < (int (length poly) - 1) div d \<and>
    (\<forall>k. poly_gcd P (splitter P src poly (nat d) k) poly = [1] \<or>
         poly_gcd P (splitter P src poly (nat d) k) poly = poly) \<longrightarrow>
      equal_degree_factorization fuel P src poly d = None)"
proof (intro conjI impI)
  assume "equal_degree_factorization fuel P src poly d = Some x \<and> fuel \<le> fuel'"
  then show "equal_degree_factorization fuel' P src poly d = Some x"
    using equal_degree_factorization_more_fuel by blast
next
  assume a: "int (length poly) - 1 \<ge> 1 \<and> hd poly = 1 \<and> d \<noteq> 0 \<and>
    (int (length poly) - 1) mod d = 0 \<and> (int (length poly) - 1) div d \<le> 1"
  then have v: "int (length poly) - 1 \<ge> 1" "hd poly = 1" "d \<noteq> 0"
    "(int (length poly) - 1) mod d = 0" and r: "(int (length poly) - 1) div d \<le> 1"
    by simp_all
  from r show "equal_degree_factorization (Suc fuel) P src poly d = Some (Inr [poly])"
    unfolding equal_degree_factorization_valid [OF v] by simp
next
  assume a: "int (length poly) - 1 \<ge> 1 \<and> hd poly = 1 \<and> d \<noteq> 0 \<and>
    (int (length poly) - 1) mod d = 0 \<and>
    equal_degree_factorization fuel P src poly d = Some (Inr fs)"
  then have v: "int (length poly) - 1 \<ge> 1" "hd poly = 1" "d \<noteq> 0"
    "(int (length poly) - 1) mod d = 0"
    and e: "equal_degree_factorization fuel P src poly d = Some (Inr fs)" by simp_all
  from e obtain y where
    y: "edf_loop fuel P src poly (nat d) ((int (length poly) - 1) div d) 0 [poly] = Some y"
    and x: "Inr fs = map_sum id (sort_key (poly_integer (forder P))) y"
    unfolding equal_degree_factorization_valid [OF v] by auto
  from x obtain fs' where y': "y = Inr fs'"
    and fs: "fs = sort_key (poly_integer (forder P)) fs'"
    by (cases y) simp_all
  from edf_loop_enough_factors [OF y [unfolded y']] fs
  show "(int (length poly) - 1) div d \<le> int (length fs)" by simp
  from fs show "sorted (map (poly_integer (forder P)) fs)" by simp
next
  assume a: "int (length poly) - 1 \<ge> 1 \<and> hd poly = 1 \<and> d \<noteq> 0 \<and>
    (int (length poly) - 1) mod d = 0 \<and> 1 < (int (length poly) - 1) div d \<and>
    (\<forall>k. poly_gcd P (splitter P src poly (nat d) k) poly = [1] \<or>
         poly_gcd P (splitter P src poly (nat d) k) poly = poly)"
  then have v: "int (length poly) - 1 \<ge> 1" "hd poly = 1" "d \<noteq> 0"
    "(int (length poly) - 1) mod d = 0" and r: "1 < (int (length poly) - 1) div d"
    and ns: "\<forall>k. poly_gcd P (splitter P src poly (nat d) k) poly = [1] \<or>
         poly_gcd P (splitter P src poly (nat d) k) poly = poly"
    by simp_all
  have n2: "2 \<le> int (length poly) - 1"
  proof (rule ccontr)
    assume "\<not> 2 \<le> int (length poly) - 1"
    with v(1) have n1: "int (length poly) - 1 = 1" by simp
    have "(1::int) div d \<le> 1"
    proof (cases "0 < d")
      case True
      then have "(1::int) div d \<le> 1 div 1" by (intro zdiv_mono2) simp_all
      then show ?thesis by simp
    next
      case False
      with v(3) have "d < 0" by simp
      then have "(1::int) div d \<le> 0" by (simp add: div_nonneg_neg_le0)
      then show ?thesis by simp
    qed
    with r n1 show False by simp
  qed
  then have n: "\<not> length poly - 1 - 1 < 1" by linarith
  from edf_loop_never_splits [OF ns r n]
  show "equal_degree_factorization fuel P src poly d = None"
    unfolding equal_degree_factorization_valid [OF v] by simp
qed


text \<open>
  Witness over GF(2). \<open>x^2 + x = x (x + 1)\<close> with \<open>d = 1\<close> is split by the first draw
  and the two factors are returned, within 5 steps and so within 9; \<open>x^2 + x + 1\<close> with
  \<open>d = 2\<close> has \<open>r = 1\<close> and is returned as it is; with \<open>d = 1\<close> it has \<open>r = 2\<close> and no
  draw splits it, so that there is no result within 100 steps.
\<close>

theorem equal_degree_factorization_returns_only_when_split_witness:
  "equal_degree_factorization 5 (gfp_ops 2) (\<lambda>k. 0) [1, 1, 0] 1 = Some (Inr [[1, 0], [1, 1]]) \<and>
   equal_degree_factorization 9 (gfp_ops 2) (\<lambda>k. 0) [1, 1, 0] 1 = Some (Inr [[1, 0], [1, 1]]) \<and>
   equal_degree_factorization (Suc 0) (gfp_ops 2) (\<lambda>k. k) [1, 1, 1] 2 = Some (Inr [[1, 1, 1]]) \<and>
   (int (length [1, 1, 0 :: int]) - 1) div 1 \<le> int (length [[1, 0], [1, 1 :: int]]) \<and>
   sorted (map (poly_integer (forder (gfp_ops 2))) [[1, 0], [1, 1]]) \<and>
   equal_degree_factorization 100 (gfp_ops 2) (\<lambda>k. k) [1, 1, 1] 1 = None"
proof -
  have e5: "equal_degree_factorization 5 (gfp_ops 2) (\<lambda>k. 0) [1, 1, 0] 1 =
      Some (Inr [[1, 0], [1, 1]])" by code_simp
  have le: "(5::nat) \<le> 9" by simp
  note m = equal_degree_factorization_returns_only_when_split
    [where fuel = 5 and fuel' = 9 and P = "gfp_ops 2" and src = "\<lambda>k. 0" and poly = "[1, 1, 0]"
       and d = 1 and x = "Inr [[1, 0], [1, 1]]", THEN conjunct1, THEN mp, OF conjI [OF e5 le]]
  have v2: "int (length [1, 1, 1 :: int]) - 1 \<ge> 1 \<and> hd [1, 1, 1 :: int] = 1 \<and> (2::int) \<noteq> 0 \<and>
    (int (length [1, 1, 1 :: int]) - 1) mod 2 = 0 \<and> (int (length [1, 1, 1 :: int]) - 1) div 2 \<le> 1"
    by simp
  note one = equal_degree_factorization_returns_only_when_split
    [where fuel = 0 and P = "gfp_ops 2" and src = "\<lambda>k. k" and poly = "[1, 1, 1]" and d = 2,
     THEN conjunct2, THEN conjunct1, THEN mp, OF v2]
  have v3: "int (length [1, 1, 0 :: int]) - 1 \<ge> 1 \<and> hd [1, 1, 0 :: int] = 1 \<and> (1::int) \<noteq> 0 \<and>
    (int (length [1, 1, 0 :: int]) - 1) mod 1 = 0 \<and>
    equal_degree_factorization 5 (gfp_ops 2) (\<lambda>k. 0) [1, 1, 0] 1 = Some (Inr [[1, 0], [1, 1]])"
    using e5 by simp
  note post = equal_degree_factorization_returns_only_when_split
    [where fuel = 5 and P = "gfp_ops 2" and src = "\<lambda>k. 0" and poly = "[1, 1, 0]" and d = 1
       and fs = "[[1, 0], [1, 1]]",
     THEN conjunct2, THEN conjunct2, THEN conjunct1, THEN mp, OF v3]
  from post have p1: "(int (length [1, 1, 0 :: int]) - 1) div 1 \<le>
      int (length [[1, 0], [1, 1 :: int]])" by (rule conjunct1)
  from post have p2: "sorted (map (poly_integer (forder (gfp_ops 2))) [[1, 0], [1, 1]])"
    by (rule conjunct2)
  have v4: "int (length [1, 1, 1 :: int]) - 1 \<ge> 1 \<and> hd [1, 1, 1 :: int] = 1 \<and> (1::int) \<noteq> 0 \<and>
    (int (length [1, 1, 1 :: int]) - 1) mod 1 = 0 \<and>
    1 < (int (length [1, 1, 1 :: int]) - 1) div 1 \<and>
    (\<forall>k. poly_gcd (gfp_ops 2) (splitter (gfp_ops 2) (\<lambda>k. k) [1, 1, 1] (nat 1) k) [1, 1, 1] = [1] \<or>
         poly_gcd (gfp_ops 2) (splitter (gfp_ops 2) (\<lambda>k. k) [1, 1, 1] (nat 1) k) [1, 1, 1] =
           [1, 1, 1])"
    using gf2_never_splits [of "\<lambda>k. k"] by simp
  note never = equal_degree_factorization_returns_only_when_split
    [where fuel = 100 and P = "gfp_ops 2" and src = "\<lambda>k. k" and poly = "[1, 1, 1]" and d = 1,
     THEN conjunct2, THEN conjunct2, THEN conjunct2, THEN mp, OF v4]
  from e5 m one p1 p2 never show ?thesis by (intro conjI)
qed

text \<open>
  \<open>x^2 + x + 1\<close> over GF(2) with \<open>d = 1\<close>: it is monic, its degree 2 is divisible by 1,
  and it is square-free, its greatest common divisor with its derivative 1 being 1. It is
  irreducible, so that no draw splits it, and the call does not return within any number
  of steps, whatever the random generator gives.
\<close>

theorem equal_degree_factorization_never_returns:
  "(\<forall>fuel src. equal_degree_factorization fuel (gfp_ops 2) src [1, 1, 1] 1 = None) \<and>
   hd [1, 1, 1] = (1::int) \<and> (int (length [1, 1, 1 :: int]) - 1) mod 1 = 0 \<and>
   pgcd 2 [1, 1, 1] [1] = [1]"
proof (intro conjI allI)
  fix fuel src
  have v: "int (length [1, 1, 1 :: int]) - 1 \<ge> 1" "hd [1, 1, 1 :: int] = 1" "(1::int) \<noteq> 0"
    "(int (length [1, 1, 1 :: int]) - 1) mod 1 = 0" by simp_all
  have r: "(1::int) < (int (length [1, 1, 1 :: int]) - 1) div 1" by simp
  have n: "\<not> length [1, 1, 1 :: int] - 1 - 1 < 1" by simp
  have ns: "\<forall>k. poly_gcd (gfp_ops 2) (splitter (gfp_ops 2) src [1, 1, 1] (nat 1) k) [1, 1, 1] = [1] \<or>
       poly_gcd (gfp_ops 2) (splitter (gfp_ops 2) src [1, 1, 1] (nat 1) k) [1, 1, 1] = [1, 1, 1]"
    using gf2_never_splits [of src] by simp
  from edf_loop_never_splits [OF ns r n]
  show "equal_degree_factorization fuel (gfp_ops 2) src [1, 1, 1] 1 = None"
    unfolding equal_degree_factorization_valid [OF v] by simp
next
  show "hd [1, 1, 1] = (1::int)" by simp
  show "(int (length [1, 1, 1 :: int]) - 1) mod 1 = 0" by simp
  show "pgcd 2 [1, 1, 1] [1] = [1]" by code_simp
qed

end
